theory Spec2Isabelle
  imports Complex_Main "HOL-Library.AList"
begin

section \<open>Data model\<close>

text \<open>
  The detection engine of the repository lives in \<^verbatim>\<open>app/frame_classifier.py\<close> (frame
  classification and per-scene scoring), \<^verbatim>\<open>app/gui.py\<close> (the orchestration in
  \<^verbatim>\<open>VideoAnalyzerApp._analyze_video\<close> and the decision rule) and
  \<^verbatim>\<open>app/model_loader.py\<close> (the model registry).

  A Python float is modelled by the real number it denotes (finite values only), and
  every arithmetic operation on floats rounds its exact result: \<^verbatim>\<open>a + b\<close> is
  \<open>fl (a + b)\<close>, where \<open>fl\<close> is the rounding of the float format. The rounding is a
  parameter of every function that computes with floats, so nothing is assumed about it
  but what a theorem states; comparisons of floats are exact. Python ints are
  \<^typ>\<open>int\<close>. An exception raised by the code is a value \<open>Inl e\<close> of a sum type; a loop that
  may run forever is a \<^theory_text>\<open>partial_function\<close> in the option monad, \<open>None\<close> meaning that
  the call never returns.
\<close>

datatype error =
  ZeroDivisionError
  | AttributeError
  | KeyError
  | IndexError
  | TypeError
  | LibraryError

type_synonym rounding = "real \<Rightarrow> real"

text \<open>Python's \<^verbatim>\<open>a / b\<close> on floats, and on ints (whose quotient is the correctly rounded
  float): raises \<^verbatim>\<open>ZeroDivisionError\<close> when \<open>b\<close> is zero.\<close>

definition truediv :: "rounding \<Rightarrow> real \<Rightarrow> real \<Rightarrow> error + real" where
  "truediv fl a b = (if b = 0 then Inl ZeroDivisionError else Inr (fl (a / b)))"

text \<open>
  An opened \<^verbatim>\<open>cv2.VideoCapture\<close>, as the scoring loops use it: every \<^verbatim>\<open>cap.read()\<close> follows
  a \<^verbatim>\<open>cap.set(cv2.CAP_PROP_POS_MSEC, ms)\<close>, so a capture is the function from the position
  in milliseconds to the frame read there, \<open>None\<close> when \<^verbatim>\<open>ret\<close> is false (end of stream,
  or a file that could not be opened).
\<close>

type_synonym 'f capture = "real \<Rightarrow> 'f option"

text \<open>
  A scene range \<open>(start, end)\<close> in seconds, and the score dictionary keyed by it. A Python
  dict keeps its keys in insertion order and holds each key once: it is an association
  list, written with \<^const>\<open>AList.update\<close> and read with \<^const>\<open>map_of\<close>.
\<close>

type_synonym scene = "real \<times> real"

type_synonym score_dict = "(scene \<times> real) list"

text \<open>
  A loaded network maps the preprocessed image to its row of class scores, or raises.
  The handle that \<^verbatim>\<open>load_model\<close> returns is such a network or Python's \<^verbatim>\<open>None\<close>.
\<close>

type_synonym 't network = "'t \<Rightarrow> error + real list"

type_synonym 't model_handle = "'t network option"

section \<open>Frame classification (\<^verbatim>\<open>frame_classifier.py\<close>)\<close>

text \<open>
  \<^verbatim>\<open>torch.max(outputs, 1)\<close> on the single row of the batch: the index of the maximal
  entry, the first one when several entries are maximal.
\<close>

fun torch_max_index :: "real list \<Rightarrow> nat" where
  "torch_max_index [] = 0"
| "torch_max_index [x] = 0"
| "torch_max_index (x # y # ys) =
     (let j = torch_max_index (y # ys)
      in if (y # ys) ! j \<le> x then 0 else Suc j)"

text \<open>
  \<^verbatim>\<open>classify_frame(frame, model)\<close>. The colour conversion and the \<^verbatim>\<open>transform\<close> pipeline
  (resize, tensor, normalise) are the parameter \<open>transform\<close>, which may raise. Calling the
  handle \<^verbatim>\<open>None\<close> raises \<^verbatim>\<open>TypeError\<close>; the network may raise; \<^verbatim>\<open>torch.max\<close> raises on a
  row without entries.
\<close>

definition classify_frame ::
  "('f \<Rightarrow> error + 't) \<Rightarrow> 'f \<Rightarrow> 't model_handle \<Rightarrow> error + nat" where
  "classify_frame transform frame model =
     (case transform frame of
        Inl e \<Rightarrow> Inl e
      | Inr image_tensor \<Rightarrow>
          (case model of
             None \<Rightarrow> Inl TypeError
           | Some network \<Rightarrow>
               (case network image_tensor of
                  Inl e \<Rightarrow> Inl e
                | Inr outputs \<Rightarrow>
                    (if outputs = [] then Inl LibraryError
                     else (let predicted = torch_max_index outputs in Inr predicted)))))"

section \<open>Scene scoring (\<^verbatim>\<open>frame_classifier.py\<close>)\<close>

text \<open>The \<^verbatim>\<open>while current_time <= end_time\<close> loop of \<^verbatim>\<open>process_video_segments\<close>.\<close>

partial_function (option) process_video_segments_loop ::
  "rounding \<Rightarrow> 'f capture \<Rightarrow> ('f \<Rightarrow> error + 't) \<Rightarrow> 't model_handle \<Rightarrow> real \<Rightarrow> real \<Rightarrow>
   int \<Rightarrow> int \<Rightarrow> int \<Rightarrow> real \<Rightarrow> (error + int \<times> int \<times> int \<times> real) option" where
  "process_video_segments_loop fl cap transform model end_time frame_interval
       total_frames ad_frames frame_count current_time =
     (if current_time \<le> end_time then
        (case cap (fl (current_time * 1000)) of
           None \<Rightarrow> Some (Inr (total_frames, ad_frames, frame_count, current_time))
         | Some frame \<Rightarrow>
             (let total_frames = total_frames + 1
              in case classify_frame transform frame model of
                   Inl e \<Rightarrow> Some (Inl e)
                 | Inr label \<Rightarrow>
                     (let ad_frames = (if label = 0 then ad_frames + 1 else ad_frames)
                      in process_video_segments_loop fl cap transform model end_time
                           frame_interval total_frames ad_frames (frame_count + 1)
                           (fl (current_time + frame_interval)))))
      else Some (Inr (total_frames, ad_frames, frame_count, current_time)))"

definition process_video_segments ::
  "rounding \<Rightarrow> (string \<Rightarrow> 'f capture) \<Rightarrow> ('f \<Rightarrow> error + 't) \<Rightarrow> string \<Rightarrow> 't model_handle \<Rightarrow>
   real \<Rightarrow> real \<Rightarrow> real \<Rightarrow> (error + real) option" where
  "process_video_segments fl VideoCapture transform video_path model
       start_time end_time frame_interval =
     (let cap = VideoCapture video_path
      in case process_video_segments_loop fl cap transform model end_time frame_interval
                0 0 0 start_time of
           None \<Rightarrow> None
         | Some (Inl e) \<Rightarrow> Some (Inl e)
         | Some (Inr (total_frames, ad_frames, frame_count, current_time)) \<Rightarrow>
             Some (if total_frames > 0
                   then (case truediv fl (real_of_int ad_frames) (real_of_int total_frames) of
                           Inl e \<Rightarrow> Inl e
                         | Inr q \<Rightarrow> Inr (fl (q * 100)))
                   else Inr 0))"

text \<open>The loop of \<^verbatim>\<open>process_video_segments_weigth\<close>; the weight is a division by
  \<^verbatim>\<open>segment_duration\<close>, which raises when the duration is zero, and it is computed before
  the frame is classified.\<close>

partial_function (option) process_video_segments_weigth_loop ::
  "rounding \<Rightarrow> 'f capture \<Rightarrow> ('f \<Rightarrow> error + 't) \<Rightarrow> 't model_handle \<Rightarrow> real \<Rightarrow> real \<Rightarrow> real \<Rightarrow>
   real \<Rightarrow> real \<Rightarrow> real \<Rightarrow> real \<Rightarrow> (error + real \<times> real \<times> real) option" where
  "process_video_segments_weigth_loop fl cap transform model start_time end_time
       frame_interval segment_duration total_weighted_value total_weight current_time =
     (if current_time \<le> end_time then
        (case cap (fl (current_time * 1000)) of
           None \<Rightarrow> Some (Inr (total_weighted_value, total_weight, current_time))
         | Some frame \<Rightarrow>
             (case truediv fl (fl (current_time - start_time)) segment_duration of
                Inl e \<Rightarrow> Some (Inl e)
              | Inr frame_position \<Rightarrow>
                  (let weight = frame_position
                   in case classify_frame transform frame model of
                        Inl e \<Rightarrow> Some (Inl e)
                      | Inr label \<Rightarrow>
                          (let total_weight = fl (total_weight + weight);
                               total_weighted_value =
                                 (if label = 0 then fl (total_weighted_value + weight)
                                  else total_weighted_value)
                           in process_video_segments_weigth_loop fl cap transform model
                                start_time end_time frame_interval segment_duration
                                total_weighted_value total_weight
                                (fl (current_time + frame_interval))))))
      else Some (Inr (total_weighted_value, total_weight, current_time)))"

definition process_video_segments_weigth ::
  "rounding \<Rightarrow> (string \<Rightarrow> 'f capture) \<Rightarrow> ('f \<Rightarrow> error + 't) \<Rightarrow> string \<Rightarrow> 't model_handle \<Rightarrow>
   real \<Rightarrow> real \<Rightarrow> real \<Rightarrow> (error + real) option" where
  "process_video_segments_weigth fl VideoCapture transform video_path model
       start_time end_time frame_interval =
     (let cap = VideoCapture video_path;
          segment_duration = fl (end_time - start_time)
      in case process_video_segments_weigth_loop fl cap transform model start_time end_time
                frame_interval segment_duration 0 0 start_time of
           None \<Rightarrow> None
         | Some (Inl e) \<Rightarrow> Some (Inl e)
         | Some (Inr (total_weighted_value, total_weight, current_time)) \<Rightarrow>
             Some (if total_weight > 0
                   then (case truediv fl total_weighted_value total_weight of
                           Inl e \<Rightarrow> Inl e
                         | Inr q \<Rightarrow> Inr (fl (q * 100)))
                   else Inr 0))"

text \<open>\<^verbatim>\<open>process_video_segments_after_\<close> (the constant drops the trailing underscore of the
  Python name), with its own loop as in the source.\<close>

partial_function (option) process_video_segments_after_loop ::
  "rounding \<Rightarrow> 'f capture \<Rightarrow> ('f \<Rightarrow> error + 't) \<Rightarrow> 't model_handle \<Rightarrow> real \<Rightarrow> real \<Rightarrow>
   int \<Rightarrow> int \<Rightarrow> int \<Rightarrow> real \<Rightarrow> (error + int \<times> int \<times> int \<times> real) option" where
  "process_video_segments_after_loop fl cap transform model end_time frame_interval
       total_frames ad_frames frame_count current_time =
     (if current_time \<le> end_time then
        (case cap (fl (current_time * 1000)) of
           None \<Rightarrow> Some (Inr (total_frames, ad_frames, frame_count, current_time))
         | Some frame \<Rightarrow>
             (let total_frames = total_frames + 1
              in case classify_frame transform frame model of
                   Inl e \<Rightarrow> Some (Inl e)
                 | Inr label \<Rightarrow>
                     (let ad_frames = (if label = 0 then ad_frames + 1 else ad_frames)
                      in process_video_segments_after_loop fl cap transform model end_time
                           frame_interval total_frames ad_frames (frame_count + 1)
                           (fl (current_time + frame_interval)))))
      else Some (Inr (total_frames, ad_frames, frame_count, current_time)))"

definition process_video_segments_after ::
  "rounding \<Rightarrow> (string \<Rightarrow> 'f capture) \<Rightarrow> ('f \<Rightarrow> error + 't) \<Rightarrow> string \<Rightarrow> 't model_handle \<Rightarrow>
   real \<Rightarrow> real \<Rightarrow> real \<Rightarrow> (error + real) option" where
  "process_video_segments_after fl VideoCapture transform video_path model
       start_time end_time frame_interval =
     (let cap = VideoCapture video_path
      in case process_video_segments_after_loop fl cap transform model end_time frame_interval
                0 0 0 start_time of
           None \<Rightarrow> None
         | Some (Inl e) \<Rightarrow> Some (Inl e)
         | Some (Inr (total_frames, ad_frames, frame_count, current_time)) \<Rightarrow>
             Some (if total_frames > 0
                   then (case truediv fl (real_of_int ad_frames) (real_of_int total_frames) of
                           Inl e \<Rightarrow> Inl e
                         | Inr q \<Rightarrow> Inr (fl (q * 100)))
                   else Inr 0))"

text \<open>The default \<^verbatim>\<open>frame_interval=0.5\<close> of the three scoring functions.\<close>

definition default_frame_interval :: real where
  "default_frame_interval = 1 / 2"

text \<open>
  \<^verbatim>\<open>detect_ad_scenes_from_segments_and_get_all_results\<close>: the \<^verbatim>\<open>for start, end in scenes\<close>
  loop, which scores each scene with \<^verbatim>\<open>process_video_segments_after_\<close> at the default
  interval and stores the result under the key \<open>(start, end)\<close>.
\<close>

fun get_all_results_loop ::
  "rounding \<Rightarrow> (string \<Rightarrow> 'f capture) \<Rightarrow> ('f \<Rightarrow> error + 't) \<Rightarrow> string \<Rightarrow> 't model_handle \<Rightarrow>
   scene list \<Rightarrow> score_dict \<Rightarrow> (error + score_dict) option" where
  "get_all_results_loop fl VideoCapture transform video_path model [] result_dict =
     Some (Inr result_dict)"
| "get_all_results_loop fl VideoCapture transform video_path model ((start, end) # scenes)
       result_dict =
     (case process_video_segments_after fl VideoCapture transform video_path model
             start end default_frame_interval of
        None \<Rightarrow> None
      | Some (Inl e) \<Rightarrow> Some (Inl e)
      | Some (Inr result) \<Rightarrow>
          get_all_results_loop fl VideoCapture transform video_path model scenes
            (AList.update (start, end) result result_dict))"

definition detect_ad_scenes_from_segments_and_get_all_results ::
  "rounding \<Rightarrow> (string \<Rightarrow> 'f capture) \<Rightarrow> ('f \<Rightarrow> error + 't) \<Rightarrow> string \<Rightarrow> scene list \<Rightarrow>
   't model_handle \<Rightarrow> (error + score_dict) option" where
  "detect_ad_scenes_from_segments_and_get_all_results fl VideoCapture transform video_path
       scenes model =
     get_all_results_loop fl VideoCapture transform video_path model scenes []"

section \<open>Orchestration and decision (\<^verbatim>\<open>gui.py\<close>)\<close>

text \<open>
  \<^verbatim>\<open>VideoAnalyzerApp._analyze_video\<close> polls the flag \<^verbatim>\<open>self.worker._is_running\<close> at the top
  of each iteration of its three loops; \<^verbatim>\<open>Worker.stop\<close> clears the flag from the GUI thread.
  Each loop takes the flag as a function from the iteration number to the value read there.

  A future of the thread pool is the outcome of its task: \<open>None\<close> when the task never
  finishes, \<open>Some (Inl e)\<close> when \<^verbatim>\<open>future.result()\<close> re-raises, \<open>Some (Inr d)\<close> when it
  returns the dictionary \<open>d\<close>. The tasks share nothing but the read-only model, so the
  order in which the pool runs them does not show in these outcomes.
\<close>

text \<open>The submission loop: \<^verbatim>\<open>for scene in scenes: if not running: break; futures.append(...)\<close>.\<close>

fun submit_loop :: "(nat \<Rightarrow> bool) \<Rightarrow> (scene \<Rightarrow> 'r) \<Rightarrow> nat \<Rightarrow> scene list \<Rightarrow> 'r list \<Rightarrow> 'r list" where
  "submit_loop is_running task i [] futures = futures"
| "submit_loop is_running task i (scene # scenes) futures =
     (if \<not> is_running i then futures
      else submit_loop is_running task (Suc i) scenes (futures @ [task scene]))"

text \<open>\<^verbatim>\<open>preds.update(d)\<close>: every item of \<open>d\<close> is stored into \<open>preds\<close>, in the order of \<open>d\<close>.\<close>

definition dict_update :: "('k \<times> 'v) list \<Rightarrow> ('k \<times> 'v) list \<Rightarrow> ('k \<times> 'v) list" where
  "dict_update preds d = fold (\<lambda>(k, v). AList.update k v) d preds"

text \<open>The collection loop: \<^verbatim>\<open>for future in futures: if not running: break;
  preds.update(future.result())\<close>.\<close>

fun collect_loop ::
  "(nat \<Rightarrow> bool) \<Rightarrow> nat \<Rightarrow> (error + score_dict) option list \<Rightarrow> score_dict \<Rightarrow>
   (error + score_dict) option" where
  "collect_loop is_running i [] preds = Some (Inr preds)"
| "collect_loop is_running i (future # futures) preds =
     (if \<not> is_running i then Some (Inr preds)
      else (case future of
              None \<Rightarrow> None
            | Some (Inl e) \<Rightarrow> Some (Inl e)
            | Some (Inr d) \<Rightarrow> collect_loop is_running (Suc i) futures (dict_update preds d)))"

text \<open>
  The \<^verbatim>\<open>with ThreadPoolExecutor(...) as executor\<close> block. Leaving the block waits for every
  submitted task, so it is left only when all of them have finished.
\<close>

definition executor_block ::
  "(nat \<Rightarrow> bool) \<Rightarrow> (nat \<Rightarrow> bool) \<Rightarrow> rounding \<Rightarrow> (string \<Rightarrow> 'f capture) \<Rightarrow>
   ('f \<Rightarrow> error + 't) \<Rightarrow> string \<Rightarrow> 't model_handle \<Rightarrow> scene list \<Rightarrow>
   (error + score_dict) option" where
  "executor_block run_submit run_collect fl VideoCapture transform video_path model_swin
       scenes =
     (let futures =
            submit_loop run_submit
              (\<lambda>scene. detect_ad_scenes_from_segments_and_get_all_results
                         fl VideoCapture transform video_path [scene] model_swin)
              0 scenes [];
          preds = collect_loop run_collect 0 futures []
      in if list_ex (\<lambda>future. future = None) futures then None else preds)"

text \<open>\<^verbatim>\<open>scores = [preds[(start, end)] for (start, end) in scenes]\<close>; a missing key raises.\<close>

fun lookup_scores :: "score_dict \<Rightarrow> scene list \<Rightarrow> error + real list" where
  "lookup_scores preds [] = Inr []"
| "lookup_scores preds ((start, end) # scenes) =
     (case map_of preds (start, end) of
        None \<Rightarrow> Inl KeyError
      | Some score \<Rightarrow>
          (case lookup_scores preds scenes of
             Inl e \<Rightarrow> Inl e
           | Inr scores \<Rightarrow> Inr (score # scores)))"

text \<open>\<^verbatim>\<open>VideoAnalyzerApp._is_advertisement\<close>.\<close>

definition is_advertisement :: "real \<Rightarrow> real \<Rightarrow> real \<Rightarrow> bool \<Rightarrow> bool" where
  "is_advertisement model_score base_thresh boost is_isolated =
     (let adjusted_thresh = (if is_isolated then base_thresh else base_thresh - boost)
      in model_score \<ge> adjusted_thresh)"

text \<open>
  The decision loop \<^verbatim>\<open>for i, score in enumerate(scores)\<close>, over the enumerated scores that
  remain. The \<^verbatim>\<open>and\<close> of Python evaluates its right operand only when the left one holds;
  \<^verbatim>\<open>scenes[i]\<close> raises \<^verbatim>\<open>IndexError\<close> out of range.
\<close>

fun decision_loop ::
  "(nat \<Rightarrow> bool) \<Rightarrow> real \<Rightarrow> real \<Rightarrow> real list \<Rightarrow> scene list \<Rightarrow> (nat \<times> real) list \<Rightarrow>
   scene list \<Rightarrow> error + scene list" where
  "decision_loop is_running base_thresh boost scores scenes [] preds_final = Inr preds_final"
| "decision_loop is_running base_thresh boost scores scenes ((i, score) # rest) preds_final =
     (if \<not> is_running i then Inr preds_final
      else
        (let prev_ad = (if i > 0 then scores ! (i - 1) \<ge> base_thresh else False);
             next_ad = (if int i < int (length scores) - 1
                        then scores ! (i + 1) \<ge> base_thresh else False);
             is_isolated = (\<not> prev_ad \<and> \<not> next_ad);
             is_ad = is_advertisement score base_thresh boost is_isolated
         in if is_ad
            then (if i < length scenes
                  then decision_loop is_running base_thresh boost scores scenes rest
                         (preds_final @ [scenes ! i])
                  else Inl IndexError)
            else decision_loop is_running base_thresh boost scores scenes rest preds_final))"

text \<open>
  The decision stage of \<^verbatim>\<open>_analyze_video\<close>, from \<^verbatim>\<open>base_thresh = 12.5\<close> to
  \<^verbatim>\<open>return preds_final\<close>.
\<close>

definition decide :: "(nat \<Rightarrow> bool) \<Rightarrow> real list \<Rightarrow> scene list \<Rightarrow> error + scene list" where
  "decide run_decide scores scenes =
     (let base_thresh = 25 / 2;
          boost = 10
      in decision_loop run_decide base_thresh boost scores scenes (enumerate 0 scores) [])"

text \<open>
  \<^verbatim>\<open>_analyze_video\<close> after its first two statements: \<open>model_swin\<close> is the handle that
  \<^verbatim>\<open>load_model("Swin")\<close> returned, \<^verbatim>\<open>None\<close> after a failed load, and \<open>scenes\<close> the list
  that \<^verbatim>\<open>detect_scenes\<close> (the scenedetect library) returned. The handle is passed on
  unchecked.
\<close>

definition analyze_video ::
  "(nat \<Rightarrow> bool) \<Rightarrow> (nat \<Rightarrow> bool) \<Rightarrow> (nat \<Rightarrow> bool) \<Rightarrow> rounding \<Rightarrow> (string \<Rightarrow> 'f capture) \<Rightarrow>
   ('f \<Rightarrow> error + 't) \<Rightarrow> string \<Rightarrow> 't model_handle \<Rightarrow> scene list \<Rightarrow>
   (error + scene list) option" where
  "analyze_video run_submit run_collect run_decide fl VideoCapture transform video_path
       model_swin scenes =
     (if scenes = [] then Some (Inr [])
      else
        (case executor_block run_submit run_collect fl VideoCapture transform video_path
                model_swin scenes of
           None \<Rightarrow> None
         | Some (Inl e) \<Rightarrow> Some (Inl e)
         | Some (Inr preds) \<Rightarrow>
             (if preds = [] then Some (Inr [])
              else (case lookup_scores preds scenes of
                      Inl e \<Rightarrow> Some (Inl e)
                    | Inr scores \<Rightarrow> Some (decide run_decide scores scenes)))))"

section \<open>Model registry (\<^verbatim>\<open>model_loader.py\<close>)\<close>

definition AVAILABLE_MODELS :: "(string \<times> string) list" where
  "AVAILABLE_MODELS = [(''Swin'', ''../models/ad_classifier_swin.pth'')]"

text \<open>
  \<^verbatim>\<open>str.replace(old, new)\<close> for a non-empty \<open>old\<close>: every occurrence of \<open>old\<close>, found from
  left to right without overlap, becomes \<open>new\<close>. The counter \<open>skip\<close> is the number of
  characters of a replaced occurrence still to be passed over.
\<close>

fun replace_from :: "string \<Rightarrow> string \<Rightarrow> nat \<Rightarrow> string \<Rightarrow> string" where
  "replace_from old new skip [] = []"
| "replace_from old new skip (c # cs) =
     (if skip > 0 then replace_from old new (skip - 1) cs
      else if take (length old) (c # cs) = old
           then new @ replace_from old new (length old - 1) cs
           else c # replace_from old new 0 cs)"

definition str_replace :: "string \<Rightarrow> string \<Rightarrow> string \<Rightarrow> string" where
  "str_replace s old new = replace_from old new 0 s"

text \<open>
  What \<^verbatim>\<open>load_model\<close> asks of the operating system and of the libraries:
  \<^verbatim>\<open>os.path.exists\<close>, \<^verbatim>\<open>os.path.dirname\<close>, the extraction of a zip archive into a
  directory (\<open>Some e\<close> when it raises), \<^verbatim>\<open>timm.create_model\<close> (a model, Python's
  \<^verbatim>\<open>None\<close>, or an exception) and the body of the \<^verbatim>\<open>try\<close> block, \<^verbatim>\<open>torch.load\<close> with
  \<^verbatim>\<open>load_state_dict\<close>, \<^verbatim>\<open>to\<close> and \<^verbatim>\<open>eval\<close> (\<open>None\<close> when one of them raises).
\<close>

record 'm loader_env =
  path_exists :: "string \<Rightarrow> bool"
  path_dirname :: "string \<Rightarrow> string"
  extractall :: "string \<Rightarrow> string \<Rightarrow> error option"
  create_model :: "error + 'm option"
  load_state :: "string \<Rightarrow> 'm \<Rightarrow> 'm option"

definition extract_model_if_needed :: "'m loader_env \<Rightarrow> string \<Rightarrow> string \<Rightarrow> error option" where
  "extract_model_if_needed env zip_path extract_to =
     (if \<not> path_exists env extract_to
      then extractall env zip_path (path_dirname env extract_to)
      else None)"

text \<open>
  \<^verbatim>\<open>load_model(model_name)\<close>, with the module's dictionary \<^verbatim>\<open>PRELOADED_MODELS\<close> passed in
  and returned. Python's \<^verbatim>\<open>return None\<close> is \<open>Inr None\<close>; \<^verbatim>\<open>model_path.replace\<close> on the
  \<^verbatim>\<open>None\<close> that \<^verbatim>\<open>AVAILABLE_MODELS.get\<close> returns for an unknown name raises
  \<^verbatim>\<open>AttributeError\<close>.
\<close>

definition load_model ::
  "'m loader_env \<Rightarrow> (string \<times> 'm) list \<Rightarrow> string \<Rightarrow>
   (error + 'm option) \<times> (string \<times> 'm) list" where
  "load_model env PRELOADED_MODELS model_name =
     (case map_of PRELOADED_MODELS model_name of
        Some preloaded \<Rightarrow> (Inr (Some preloaded), PRELOADED_MODELS)
      | None \<Rightarrow>
          (let model_path = map_of AVAILABLE_MODELS model_name
           in case model_path of
                None \<Rightarrow> (Inl AttributeError, PRELOADED_MODELS)
              | Some path \<Rightarrow>
                  (let zip_path = str_replace path ''.pth'' ''.zip'';
                       extracted =
                         (if path_exists env zip_path
                          then extract_model_if_needed env zip_path
                                 ''../ad_classifier_swin.pth''
                          else None)
                   in case extracted of
                        Some e \<Rightarrow> (Inl e, PRELOADED_MODELS)
                      | None \<Rightarrow>
                          (case create_model env of
                             Inl e \<Rightarrow> (Inl e, PRELOADED_MODELS)
                           | Inr None \<Rightarrow> (Inr None, PRELOADED_MODELS)
                           | Inr (Some model) \<Rightarrow>
                               (if path \<noteq> []
                                then (case load_state env path model of
                                        None \<Rightarrow> (Inr None, PRELOADED_MODELS)
                                      | Some loaded \<Rightarrow>
                                          (Inr (Some loaded),
                                           AList.update model_name loaded PRELOADED_MODELS))
                                else (Inr None, PRELOADED_MODELS))))))"

section \<open>The sampling schedule and the decision rule, as the specification words them\<close>

text \<open>
  The first \<open>n\<close> timestamps of the schedule that starts at \<open>t\<close>: each one is the float sum of
  the one before and the interval.
\<close>

fun timestamps :: "rounding \<Rightarrow> real \<Rightarrow> real \<Rightarrow> nat \<Rightarrow> real list" where
  "timestamps fl t interval 0 = []"
| "timestamps fl t interval (Suc n) = t # timestamps fl (fl (t + interval)) interval n"

text \<open>The timestamp reached from \<open>t\<close> after \<open>k\<close> steps.\<close>

fun timestamp_after :: "rounding \<Rightarrow> real \<Rightarrow> nat \<Rightarrow> real \<Rightarrow> real" where
  "timestamp_after fl interval 0 t = t"
| "timestamp_after fl interval (Suc k) t = timestamp_after fl interval k (fl (t + interval))"

text \<open>A timestamp yields a sample: it does not exceed \<open>end\<close> and the source returns a frame
  at its position.\<close>

definition sampled :: "rounding \<Rightarrow> 'f capture \<Rightarrow> real \<Rightarrow> real \<Rightarrow> bool" where
  "sampled fl cap end t = (t \<le> end \<and> cap (fl (t * 1000)) \<noteq> None)"

text \<open>
  The samples obtained for a scene among the first \<open>n\<close> timestamps: the timestamps from
  \<open>start\<close> on, up to the first one that exceeds \<open>end\<close> or has no frame. When fewer than \<open>n\<close>
  are obtained the sampling has stopped, and the list is the same for every larger \<open>n\<close>.
\<close>

definition obtained_samples ::
  "rounding \<Rightarrow> 'f capture \<Rightarrow> real \<Rightarrow> real \<Rightarrow> real \<Rightarrow> nat \<Rightarrow> real list" where
  "obtained_samples fl cap start end interval n =
     takeWhile (sampled fl cap end) (timestamps fl start interval n)"

text \<open>The labels of the specification: class index 0 is Ad, every other index Content.\<close>

datatype label = Ad | Content

definition label_of :: "nat \<Rightarrow> label" where
  "label_of predicted = (if predicted = 0 then Ad else Content)"

text \<open>The outcome of classifying the sample at timestamp \<open>t\<close>: nothing when there is no
  frame, else the exception or the label.\<close>

definition label_at ::
  "rounding \<Rightarrow> 'f capture \<Rightarrow> ('f \<Rightarrow> error + 't) \<Rightarrow> 't model_handle \<Rightarrow> real \<Rightarrow>
   (error + label) option" where
  "label_at fl cap transform model t =
     (case cap (fl (t * 1000)) of
        None \<Rightarrow> None
      | Some frame \<Rightarrow>
          Some (case classify_frame transform frame model of
                  Inl e \<Rightarrow> Inl e
                | Inr predicted \<Rightarrow> Inr (label_of predicted)))"

definition labelled_ad ::
  "rounding \<Rightarrow> 'f capture \<Rightarrow> ('f \<Rightarrow> error + 't) \<Rightarrow> 't model_handle \<Rightarrow> real \<Rightarrow> bool" where
  "labelled_ad fl cap transform model t = (label_at fl cap transform model t = Some (Inr Ad))"

definition labelled_content ::
  "rounding \<Rightarrow> 'f capture \<Rightarrow> ('f \<Rightarrow> error + 't) \<Rightarrow> 't model_handle \<Rightarrow> real \<Rightarrow> bool" where
  "labelled_content fl cap transform model t =
     (label_at fl cap transform model t = Some (Inr Content))"

definition classification_error ::
  "rounding \<Rightarrow> 'f capture \<Rightarrow> ('f \<Rightarrow> error + 't) \<Rightarrow> 't model_handle \<Rightarrow> real \<Rightarrow> error option" where
  "classification_error fl cap transform model t =
     (case label_at fl cap transform model t of
        Some (Inl e) \<Rightarrow> Some e
      | Some (Inr l) \<Rightarrow> None
      | None \<Rightarrow> None)"

text \<open>The exception of the first sample of a list whose classification raises.\<close>

fun first_failure :: "(real \<Rightarrow> error option) \<Rightarrow> real list \<Rightarrow> error option" where
  "first_failure failure [] = None"
| "first_failure failure (t # ts) =
     (case failure t of Some e \<Rightarrow> Some e | None \<Rightarrow> first_failure failure ts)"

text \<open>
  The weight of the sample at \<open>t\<close>, its normalised position inside the range, for a
  segment duration \<open>d\<close>; and the float sum of a list of weights, accumulated from the left
  as \<^verbatim>\<open>total += weight\<close> does.
\<close>

definition sample_weight :: "rounding \<Rightarrow> real \<Rightarrow> real \<Rightarrow> real \<Rightarrow> real" where
  "sample_weight fl start d t = fl (fl (t - start) / d)"

definition accumulate :: "rounding \<Rightarrow> real \<Rightarrow> real list \<Rightarrow> real" where
  "accumulate fl acc weights = foldl (\<lambda>acc weight. fl (acc + weight)) acc weights"

text \<open>The percentage \<^verbatim>\<open>(part / whole) * 100\<close> in float arithmetic.\<close>

definition percentage :: "rounding \<Rightarrow> real \<Rightarrow> real \<Rightarrow> real" where
  "percentage fl part whole = fl (fl (part / whole) * 100)"

text \<open>
  The decision rule of the specification, with \<open>baseThreshold = 12.5\<close> and \<open>boost = 10\<close>:
  scene \<open>i\<close> is isolated when neither neighbour reaches the base threshold.
\<close>

definition isolated :: "real list \<Rightarrow> nat \<Rightarrow> bool" where
  "isolated s i =
     (\<not> (i > 0 \<and> s ! (i - 1) \<ge> 25 / 2) \<and> \<not> (i + 1 < length s \<and> s ! (i + 1) \<ge> 25 / 2))"

definition effective_threshold :: "real list \<Rightarrow> nat \<Rightarrow> real" where
  "effective_threshold s i = (if isolated s i then 25 / 2 else 25 / 2 - 10)"

definition classified_ad :: "real list \<Rightarrow> nat \<Rightarrow> bool" where
  "classified_ad s i = (s ! i \<ge> effective_threshold s i)"


section \<open>Concrete inputs\<close>

text \<open>
  The arithmetic that does not round. On the inputs below every intermediate value is a
  binary fraction of a few bits, which a float holds exactly: float arithmetic computes
  the same values there.
\<close>

definition exact :: rounding where
  "exact x = x"

text \<open>
  A video that returns a frame at every position (the frame is named by its position in
  milliseconds), and a file that cannot be read at all.
\<close>

definition always_frame :: "string \<Rightarrow> real capture" where
  "always_frame video_path ms = Some ms"

definition no_frame :: "string \<Rightarrow> real capture" where
  "no_frame video_path ms = None"

text \<open>A preprocessing that never raises and hands the frame on as it is.\<close>

definition plain_transform :: "real \<Rightarrow> error + real" where
  "plain_transform frame = Inr frame"

text \<open>
  A network that returns the same class scores for every image, and one that puts the
  frame at position \<open>p\<close> in class 0 and every other frame in class 1.
\<close>

definition const_model :: "real list \<Rightarrow> real network" where
  "const_model outputs tensor = Inr outputs"

definition ad_only_at :: "real \<Rightarrow> real network" where
  "ad_only_at p tensor = Inr (if tensor = p then [1, 0] else [0, 1])"

text \<open>A worker that is stopped just before iteration \<open>k\<close> of a loop.\<close>

definition running_until :: "nat \<Rightarrow> nat \<Rightarrow> bool" where
  "running_until k i = (i < k)"

section \<open>The scoring loops\<close>

lemma obtained_samples_step:
  "obtained_samples fl cap cur end interval (Suc n) =
     (if sampled fl cap end cur
      then cur # obtained_samples fl cap (fl (cur + interval)) end interval n
      else [])"
  by (simp add: obtained_samples_def)

lemma classification_error_frame:
  "cap (fl (t * 1000)) = Some frame \<Longrightarrow>
     classification_error fl cap tr m t =
       (case classify_frame tr frame m of Inl e \<Rightarrow> Some e | Inr l \<Rightarrow> None)"
  by (simp add: classification_error_def label_at_def split: sum.splits)

lemma labelled_ad_frame:
  "cap (fl (t * 1000)) = Some frame \<Longrightarrow>
     labelled_ad fl cap tr m t = (classify_frame tr frame m = Inr 0)"
  by (auto simp: labelled_ad_def label_at_def label_of_def split: sum.splits)

lemma label_at_frame:
  "cap (fl (t * 1000)) = Some frame \<Longrightarrow>
     label_at fl cap tr m t =
       Some (case classify_frame tr frame m of
               Inl e \<Rightarrow> Inl e | Inr predicted \<Rightarrow> Inr (label_of predicted))"
  by (simp add: label_at_def)

lemma labelled_ad_case:
  "labelled_ad fl cap tr m t =
     (case cap (fl (t * 1000)) of
        None \<Rightarrow> False
      | Some frame \<Rightarrow> classify_frame tr frame m = Inr 0)"
  by (auto simp: labelled_ad_def label_at_def label_of_def split: option.splits sum.splits)

text \<open>
  The loop of \<^verbatim>\<open>process_video_segments\<close>, entered at the timestamp \<open>cur\<close>, when the
  sampling stops within \<open>n\<close> timestamps: it returns the exception of the first sample
  whose classification raises, or else the counts of the obtained samples and, among
  them, of those with label 0.
\<close>

lemma process_video_segments_loop_result:
  assumes "length (obtained_samples fl cap cur end interval n) < n"
  shows "process_video_segments_loop fl cap tr m end interval tf af fc cur =
     (let ts = obtained_samples fl cap cur end interval n
      in Some (case first_failure (classification_error fl cap tr m) ts of
                 Some e \<Rightarrow> Inl e
               | None \<Rightarrow>
                   Inr (tf + int (length ts),
                        af + int (length (filter (labelled_ad fl cap tr m) ts)),
                        fc + int (length ts),
                        timestamp_after fl interval (length ts) cur)))"
  using assms
proof (induction n arbitrary: cur tf af fc)
  case 0
  then show ?case by simp
next
  case (Suc n)
  show ?case
  proof (cases "sampled fl cap end cur")
    case False
    then have ts: "obtained_samples fl cap cur end interval (Suc n) = []"
      by (simp add: obtained_samples_step)
    from False show ?thesis
      unfolding ts
      by (subst process_video_segments_loop.simps)
         (auto simp: sampled_def split: option.splits)
  next
    case True
    then obtain frame where le: "cur \<le> end" and frame: "cap (fl (cur * 1000)) = Some frame"
      by (auto simp: sampled_def)
    have ts: "obtained_samples fl cap cur end interval (Suc n) =
        cur # obtained_samples fl cap (fl (cur + interval)) end interval n"
      using True by (simp add: obtained_samples_step)
    have stop: "length (obtained_samples fl cap (fl (cur + interval)) end interval n) < n"
      using Suc.prems unfolding ts by simp
    note IH = Suc.IH [OF stop]
    have err: "classification_error fl cap tr m cur =
        (case classify_frame tr frame m of Inl e \<Rightarrow> Some e | Inr l \<Rightarrow> None)"
      using frame by (rule classification_error_frame)
    have ad: "labelled_ad fl cap tr m cur = (classify_frame tr frame m = Inr 0)"
      using frame by (rule labelled_ad_frame)
    show ?thesis
    proof (cases "classify_frame tr frame m")
      case (Inl e)
      then show ?thesis
        unfolding ts using le frame
        by (subst process_video_segments_loop.simps)
           (simp add: Let_def err)
    next
      case (Inr label)
      then show ?thesis
        unfolding ts using le frame
        by (subst process_video_segments_loop.simps)
           (simp add: Let_def err ad IH split: option.splits)
    qed
  qed
qed

lemma process_video_segments_after_loop_result:
  assumes "length (obtained_samples fl cap cur end interval n) < n"
  shows "process_video_segments_after_loop fl cap tr m end interval tf af fc cur =
     (let ts = obtained_samples fl cap cur end interval n
      in Some (case first_failure (classification_error fl cap tr m) ts of
                 Some e \<Rightarrow> Inl e
               | None \<Rightarrow>
                   Inr (tf + int (length ts),
                        af + int (length (filter (labelled_ad fl cap tr m) ts)),
                        fc + int (length ts),
                        timestamp_after fl interval (length ts) cur)))"
  using assms
proof (induction n arbitrary: cur tf af fc)
  case 0
  then show ?case by simp
next
  case (Suc n)
  show ?case
  proof (cases "sampled fl cap end cur")
    case False
    then have ts: "obtained_samples fl cap cur end interval (Suc n) = []"
      by (simp add: obtained_samples_step)
    from False show ?thesis
      unfolding ts
      by (subst process_video_segments_after_loop.simps)
         (auto simp: sampled_def split: option.splits)
  next
    case True
    then obtain frame where le: "cur \<le> end" and frame: "cap (fl (cur * 1000)) = Some frame"
      by (auto simp: sampled_def)
    have ts: "obtained_samples fl cap cur end interval (Suc n) =
        cur # obtained_samples fl cap (fl (cur + interval)) end interval n"
      using True by (simp add: obtained_samples_step)
    have stop: "length (obtained_samples fl cap (fl (cur + interval)) end interval n) < n"
      using Suc.prems unfolding ts by simp
    note IH = Suc.IH [OF stop]
    have err: "classification_error fl cap tr m cur =
        (case classify_frame tr frame m of Inl e \<Rightarrow> Some e | Inr l \<Rightarrow> None)"
      using frame by (rule classification_error_frame)
    have ad: "labelled_ad fl cap tr m cur = (classify_frame tr frame m = Inr 0)"
      using frame by (rule labelled_ad_frame)
    show ?thesis
    proof (cases "classify_frame tr frame m")
      case (Inl e)
      then show ?thesis
        unfolding ts using le frame
        by (subst process_video_segments_after_loop.simps)
           (simp add: Let_def err)
    next
      case (Inr label)
      then show ?thesis
        unfolding ts using le frame
        by (subst process_video_segments_after_loop.simps)
           (simp add: Let_def err ad IH split: option.splits)
    qed
  qed
qed

lemma accumulate_Cons: "accumulate fl acc (w # ws) = accumulate fl (fl (acc + w)) ws"
  by (simp add: accumulate_def)

lemma accumulate_Nil: "accumulate fl acc [] = acc"
  by (simp add: accumulate_def)

text \<open>
  The loop of \<^verbatim>\<open>process_video_segments_weigth\<close>: with a zero duration the first sample
  that is read raises; otherwise the loop returns the first exception of the classifier
  or the two accumulated weight sums.
\<close>

lemma process_video_segments_weigth_loop_result:
  assumes "length (obtained_samples fl cap cur end interval n) < n"
  shows "process_video_segments_weigth_loop fl cap tr m start end interval d twv tw cur =
     (let ts = obtained_samples fl cap cur end interval n
      in Some (if d = 0 \<and> ts \<noteq> [] then Inl ZeroDivisionError
               else (case first_failure (classification_error fl cap tr m) ts of
                       Some e \<Rightarrow> Inl e
                     | None \<Rightarrow>
                         Inr (accumulate fl twv
                                (map (sample_weight fl start d)
                                   (filter (labelled_ad fl cap tr m) ts)),
                              accumulate fl tw (map (sample_weight fl start d) ts),
                              timestamp_after fl interval (length ts) cur))))"
  using assms
proof (induction n arbitrary: cur twv tw)
  case 0
  then show ?case by simp
next
  case (Suc n)
  show ?case
  proof (cases "sampled fl cap end cur")
    case False
    then have ts: "obtained_samples fl cap cur end interval (Suc n) = []"
      by (simp add: obtained_samples_step)
    from False show ?thesis
      unfolding ts
      by (subst process_video_segments_weigth_loop.simps)
         (auto simp: sampled_def accumulate_Nil split: option.splits)
  next
    case True
    then obtain frame where le: "cur \<le> end" and frame: "cap (fl (cur * 1000)) = Some frame"
      by (auto simp: sampled_def)
    have ts: "obtained_samples fl cap cur end interval (Suc n) =
        cur # obtained_samples fl cap (fl (cur + interval)) end interval n"
      using True by (simp add: obtained_samples_step)
    have stop: "length (obtained_samples fl cap (fl (cur + interval)) end interval n) < n"
      using Suc.prems unfolding ts by simp
    note IH = Suc.IH [OF stop]
    have err: "classification_error fl cap tr m cur =
        (case classify_frame tr frame m of Inl e \<Rightarrow> Some e | Inr l \<Rightarrow> None)"
      using frame by (rule classification_error_frame)
    have ad: "labelled_ad fl cap tr m cur = (classify_frame tr frame m = Inr 0)"
      using frame by (rule labelled_ad_frame)
    show ?thesis
    proof (cases "d = 0")
      case True
      then show ?thesis
        unfolding ts using le frame
        by (subst process_video_segments_weigth_loop.simps) (simp add: truediv_def)
    next
      case False
      show ?thesis
      proof (cases "classify_frame tr frame m")
        case (Inl e)
        then show ?thesis
          unfolding ts using le frame False
          by (subst process_video_segments_weigth_loop.simps)
             (simp add: Let_def err truediv_def)
      next
        case (Inr label)
        then show ?thesis
          unfolding ts using le frame False
          by (subst process_video_segments_weigth_loop.simps)
             (simp add: Let_def err ad IH truediv_def accumulate_Cons sample_weight_def
                   split: option.splits)
      qed
    qed
  qed
qed

text \<open>The three scoring functions, when the sampling stops within \<open>n\<close> timestamps.\<close>

lemma process_video_segments_result:
  assumes "length (obtained_samples fl (VideoCapture video_path) start end interval n) < n"
  shows "process_video_segments fl VideoCapture tr video_path m start end interval =
     (let cap = VideoCapture video_path;
          ts = obtained_samples fl cap start end interval n
      in Some (case first_failure (classification_error fl cap tr m) ts of
                 Some e \<Rightarrow> Inl e
               | None \<Rightarrow>
                   Inr (if ts = [] then 0
                        else percentage fl (real (length (filter (labelled_ad fl cap tr m) ts)))
                               (real (length ts)))))"
proof -
  let ?cap = "VideoCapture video_path"
  define ts where "ts = obtained_samples fl ?cap start end interval n"
  define failure where "failure = first_failure (classification_error fl ?cap tr m) ts"
  define ads where "ads = length (filter (labelled_ad fl ?cap tr m) ts)"
  have loop: "process_video_segments_loop fl ?cap tr m end interval 0 0 0 start =
      Some (case failure of
              Some e \<Rightarrow> Inl e
            | None \<Rightarrow> Inr (int (length ts), int ads, int (length ts),
                          timestamp_after fl interval (length ts) start))"
    using process_video_segments_loop_result [OF assms, of tr m 0 0 0]
    by (simp add: Let_def ts_def failure_def ads_def split: option.splits)
  have "process_video_segments fl VideoCapture tr video_path m start end interval =
      Some (case failure of
              Some e \<Rightarrow> Inl e
            | None \<Rightarrow> Inr (if ts = [] then 0
                          else percentage fl (real ads) (real (length ts))))"
    unfolding process_video_segments_def Let_def loop
    by (cases failure) (simp_all add: truediv_def percentage_def)
  then show ?thesis
    unfolding ts_def failure_def ads_def Let_def .
qed

lemma process_video_segments_after_result:
  assumes "length (obtained_samples fl (VideoCapture video_path) start end interval n) < n"
  shows "process_video_segments_after fl VideoCapture tr video_path m start end interval =
     (let cap = VideoCapture video_path;
          ts = obtained_samples fl cap start end interval n
      in Some (case first_failure (classification_error fl cap tr m) ts of
                 Some e \<Rightarrow> Inl e
               | None \<Rightarrow>
                   Inr (if ts = [] then 0
                        else percentage fl (real (length (filter (labelled_ad fl cap tr m) ts)))
                               (real (length ts)))))"
proof -
  let ?cap = "VideoCapture video_path"
  define ts where "ts = obtained_samples fl ?cap start end interval n"
  define failure where "failure = first_failure (classification_error fl ?cap tr m) ts"
  define ads where "ads = length (filter (labelled_ad fl ?cap tr m) ts)"
  have loop: "process_video_segments_after_loop fl ?cap tr m end interval 0 0 0 start =
      Some (case failure of
              Some e \<Rightarrow> Inl e
            | None \<Rightarrow> Inr (int (length ts), int ads, int (length ts),
                          timestamp_after fl interval (length ts) start))"
    using process_video_segments_after_loop_result [OF assms, of tr m 0 0 0]
    by (simp add: Let_def ts_def failure_def ads_def split: option.splits)
  have "process_video_segments_after fl VideoCapture tr video_path m start end interval =
      Some (case failure of
              Some e \<Rightarrow> Inl e
            | None \<Rightarrow> Inr (if ts = [] then 0
                          else percentage fl (real ads) (real (length ts))))"
    unfolding process_video_segments_after_def Let_def loop
    by (cases failure) (simp_all add: truediv_def percentage_def)
  then show ?thesis
    unfolding ts_def failure_def ads_def Let_def .
qed

lemma process_video_segments_weigth_result:
  assumes "length (obtained_samples fl (VideoCapture video_path) start end interval n) < n"
  shows "process_video_segments_weigth fl VideoCapture tr video_path m start end interval =
     (let cap = VideoCapture video_path;
          d = fl (end - start);
          ts = obtained_samples fl cap start end interval n;
          ad_weight = accumulate fl 0 (map (sample_weight fl start d)
                                          (filter (labelled_ad fl cap tr m) ts));
          weight = accumulate fl 0 (map (sample_weight fl start d) ts)
      in Some (if d = 0 \<and> ts \<noteq> [] then Inl ZeroDivisionError
               else (case first_failure (classification_error fl cap tr m) ts of
                       Some e \<Rightarrow> Inl e
                     | None \<Rightarrow>
                         Inr (if weight > 0 then percentage fl ad_weight weight else 0))))"
proof -
  let ?cap = "VideoCapture video_path"
  define d where "d = fl (end - start)"
  define ts where "ts = obtained_samples fl ?cap start end interval n"
  define failure where "failure = first_failure (classification_error fl ?cap tr m) ts"
  define raises where "raises = (d = 0 \<and> ts \<noteq> [])"
  define A where "A = accumulate fl 0 (map (sample_weight fl start d)
                                          (filter (labelled_ad fl ?cap tr m) ts))"
  define W where "W = accumulate fl 0 (map (sample_weight fl start d) ts)"
  have loop: "process_video_segments_weigth_loop fl ?cap tr m start end interval d 0 0 start =
      Some (if raises then Inl ZeroDivisionError
            else (case failure of
                    Some e \<Rightarrow> Inl e
                  | None \<Rightarrow> Inr (A, W, timestamp_after fl interval (length ts) start)))"
    using process_video_segments_weigth_loop_result [OF assms, of tr m start d 0 0]
    unfolding Let_def ts_def failure_def raises_def A_def W_def .
  have "process_video_segments_weigth fl VideoCapture tr video_path m start end interval =
      Some (if raises then Inl ZeroDivisionError
            else (case failure of
                    Some e \<Rightarrow> Inl e
                  | None \<Rightarrow> Inr (if W > 0 then percentage fl A W else 0)))"
    unfolding process_video_segments_weigth_def Let_def d_def [symmetric] loop
    by (cases raises; cases failure) (simp_all add: truediv_def percentage_def)
  then show ?thesis
    unfolding raises_def A_def W_def ts_def failure_def d_def Let_def .
qed


lemma timestamps_progress:
  assumes "0 \<le> c" and "\<And>t. t + c \<le> fl (t + interval)"
  shows "k < n \<Longrightarrow> t + real k * c \<le> timestamps fl t interval n ! k"
proof (induction n arbitrary: t k)
  case 0
  then show ?case by simp
next
  case (Suc n)
  show ?case
  proof (cases k)
    case 0
    then show ?thesis by simp
  next
    case (Suc j)
    with Suc.prems have "j < n" by simp
    from Suc.IH [OF this, of "fl (t + interval)"] assms(2) [of t]
    show ?thesis using Suc by (simp add: algebra_simps)
  qed
qed

lemma sampling_stops:
  assumes "0 < c" and "\<And>t. t + c \<le> fl (t + interval)"
  shows "\<exists>n. length (obtained_samples fl cap start end interval n) < n"
proof -
  define k where "k = nat \<lceil>(end - start) / c\<rceil> + 1"
  let ?xs = "timestamps fl start interval (Suc k)"
  have "(end - start) / c < real k"
    unfolding k_def by linarith
  then have "end - start < real k * c"
    using assms(1) by (simp add: pos_divide_less_eq)
  moreover have "start + real k * c \<le> ?xs ! k"
    by (rule timestamps_progress [OF _ assms(2)]) (use assms(1) in simp_all)
  ultimately have late: "\<not> sampled fl cap end (?xs ! k)"
    by (simp add: sampled_def)
  have "length (takeWhile (sampled fl cap end) ?xs) \<le> k"
  proof (rule ccontr)
    assume "\<not> length (takeWhile (sampled fl cap end) ?xs) \<le> k"
    then have lt: "k < length (takeWhile (sampled fl cap end) ?xs)" by simp
    then have "takeWhile (sampled fl cap end) ?xs ! k = ?xs ! k"
      by (rule takeWhile_nth)
    moreover have "takeWhile (sampled fl cap end) ?xs ! k
        \<in> set (takeWhile (sampled fl cap end) ?xs)"
      using lt by (rule nth_mem)
    ultimately have "sampled fl cap end (?xs ! k)"
      by (metis set_takeWhileD)
    with late show False by simp
  qed
  then have "length (obtained_samples fl cap start end interval (Suc k)) < Suc k"
    by (simp add: obtained_samples_def del: timestamps.simps)
  then show ?thesis by blast
qed

section \<open>Evaluation on the concrete inputs\<close>

lemma classify_const_ad:
  "classify_frame plain_transform frame (Some (const_model [1, 0])) = Inr 0"
  by (simp add: classify_frame_def plain_transform_def const_model_def)

lemma classify_const_content:
  "classify_frame plain_transform frame (Some (const_model [0, 1])) = Inr 1"
  by (simp add: classify_frame_def plain_transform_def const_model_def)

lemma classify_ad_only_at:
  "classify_frame plain_transform frame (Some (ad_only_at p)) = Inr (if frame = p then 0 else 1)"
  by (simp add: classify_frame_def plain_transform_def ad_only_at_def)

lemma label_at_always_frame:
  "label_at exact (always_frame p) plain_transform m t =
     Some (case classify_frame plain_transform (t * 1000) m of
             Inl e \<Rightarrow> Inl e | Inr predicted \<Rightarrow> Inr (label_of predicted))"
  by (simp add: label_at_def always_frame_def exact_def)

lemma samples_four:
  "obtained_samples exact (always_frame ''v.mp4'') 0 (3 / 2) (1 / 2) 5 = [0, 1 / 2, 1, 3 / 2]"
  by (simp add: obtained_samples_def eval_nat_numeral sampled_def exact_def always_frame_def)

lemma samples_unit:
  "obtained_samples exact (always_frame ''v.mp4'') 0 1 (1 / 2) 4 = [0, 1 / 2, 1]"
  by (simp add: obtained_samples_def eval_nat_numeral sampled_def exact_def always_frame_def)



lemma label_at_const_content:
  "label_at exact (always_frame p) plain_transform (Some (const_model [0, 1])) t
     = Some (Inr Content)"
  by (simp add: label_at_always_frame classify_const_content label_of_def)

lemma label_at_ad_only_at_zero:
  "label_at exact (always_frame p) plain_transform (Some (ad_only_at 0)) t
     = Some (Inr (if t = 0 then Ad else Content))"
  by (simp add: label_at_always_frame classify_ad_only_at label_of_def)

lemma samples_zero_length:
  "obtained_samples exact (always_frame ''v.mp4'') 2 2 (1 / 2) 2 = [2]"
  by (simp add: obtained_samples_def eval_nat_numeral sampled_def exact_def always_frame_def)

lemma samples_second_scene:
  "obtained_samples exact (always_frame ''v.mp4'') 2 (7 / 2) (1 / 2) 5 = [2, 5 / 2, 3, 7 / 2]"
  by (simp add: obtained_samples_def eval_nat_numeral sampled_def exact_def always_frame_def)

lemma after_first_scene:
  "process_video_segments_after exact always_frame plain_transform ''v.mp4''
     (Some (ad_only_at 0)) 0 (3 / 2) (1 / 2) = Some (Inr 25)"
  using process_video_segments_after_result
          [of exact always_frame "''v.mp4''" 0 "3 / 2" "1 / 2" 5 plain_transform
              "Some (ad_only_at 0)"]
  by (simp add: samples_four Let_def labelled_ad_def classification_error_def
                label_at_ad_only_at_zero percentage_def exact_def)

lemma after_second_scene:
  "process_video_segments_after exact always_frame plain_transform ''v.mp4''
     (Some (ad_only_at 0)) 2 (7 / 2) (1 / 2) = Some (Inr 0)"
  using process_video_segments_after_result
          [of exact always_frame "''v.mp4''" 2 "7 / 2" "1 / 2" 5 plain_transform
              "Some (ad_only_at 0)"]
  by (simp add: samples_second_scene Let_def labelled_ad_def classification_error_def
                label_at_ad_only_at_zero percentage_def exact_def)

section \<open>The unweighted score\<close>

text \<open>
  Claim C3. Whenever the sampling of the scene stops (within some number \<open>n\<close> of
  timestamps) and no classification raises, both unweighted scoring functions return the
  float value of \<open>(number of obtained samples labelled Ad) / (number of obtained samples) *
  100\<close>, that is \<open>100 * ads / samples\<close> up to rounding, and \<open>0\<close> when no sample was
  obtained: the division is never by zero. The obtained samples are those of the float
  schedule the loop itself walks. When a classification raises, the exception of the
  first such sample is the outcome.
\<close>

theorem unweighted_score_correct:
  assumes "length (obtained_samples fl (VideoCapture video_path) start end frame_interval n) < n"
  shows "(let cap = VideoCapture video_path;
              ts = obtained_samples fl cap start end frame_interval n;
              ads = filter (labelled_ad fl cap tr m) ts;
              outcome =
                Some (case first_failure (classification_error fl cap tr m) ts of
                        Some e \<Rightarrow> Inl e
                      | None \<Rightarrow>
                          Inr (if ts = [] then 0
                               else fl (fl (real (length ads) / real (length ts)) * 100)))
          in process_video_segments fl VideoCapture tr video_path m start end frame_interval
               = outcome
           \<and> process_video_segments_after fl VideoCapture tr video_path m start end
               frame_interval = outcome)"
  using assms
        process_video_segments_result
          [of fl VideoCapture video_path start "end" frame_interval n tr m]
        process_video_segments_after_result
          [of fl VideoCapture video_path start "end" frame_interval n tr m]
  unfolding percentage_def Let_def by simp

text \<open>
  A scene of a second and a half, sampled at 0, 0.5, 1 and 1.5, whose first frame alone
  is an ad; the same scene with the handle \<^verbatim>\<open>None\<close>; and a file without frames.
\<close>

theorem unweighted_score_correct_witness:
  "length (obtained_samples exact (always_frame ''v.mp4'') 0 (3 / 2) (1 / 2) 5) < 5
   \<and> obtained_samples exact (always_frame ''v.mp4'') 0 (3 / 2) (1 / 2) 5 = [0, 1 / 2, 1, 3 / 2]
   \<and> process_video_segments exact always_frame plain_transform ''v.mp4''
        (Some (ad_only_at 0)) 0 (3 / 2) (1 / 2) = Some (Inr 25)
   \<and> process_video_segments_after exact always_frame plain_transform ''v.mp4''
        (Some (ad_only_at 0)) 0 (3 / 2) (1 / 2) = Some (Inr 25)
   \<and> process_video_segments exact always_frame plain_transform ''v.mp4''
        None 0 (3 / 2) (1 / 2) = Some (Inl TypeError)
   \<and> process_video_segments exact no_frame plain_transform ''v.mp4''
        (Some (ad_only_at 0)) 0 (3 / 2) (1 / 2) = Some (Inr 0)"
proof -
  have none: "obtained_samples exact (no_frame ''v.mp4'') 0 (3 / 2) (1 / 2) 5 = []"
    by (simp add: obtained_samples_def eval_nat_numeral sampled_def no_frame_def)
  have ad: "\<And>t. labelled_ad exact (always_frame ''v.mp4'') plain_transform
                    (Some (ad_only_at 0)) t = (t = 0)"
    by (simp add: labelled_ad_def label_at_always_frame classify_ad_only_at label_of_def)
  have ok: "\<And>t. classification_error exact (always_frame ''v.mp4'') plain_transform
                    (Some (ad_only_at 0)) t = None"
    by (simp add: classification_error_def label_at_always_frame classify_ad_only_at)
  have bad: "\<And>t. classification_error exact (always_frame ''v.mp4'') plain_transform
                    None t = Some TypeError"
    by (simp add: classification_error_def label_at_always_frame classify_frame_def
                  plain_transform_def)
  show ?thesis
    using unweighted_score_correct [of exact always_frame "''v.mp4''" 0 "3 / 2" "1 / 2" 5
            plain_transform "Some (ad_only_at 0)"]
          unweighted_score_correct [of exact always_frame "''v.mp4''" 0 "3 / 2" "1 / 2" 5
            plain_transform None]
          unweighted_score_correct [of exact no_frame "''v.mp4''" 0 "3 / 2" "1 / 2" 5
            plain_transform "Some (ad_only_at 0)"]
    by (simp add: samples_four none ad ok bad Let_def exact_def)
qed

text \<open>
  Up to rounding: in a float arithmetic of relative error at most \<open>eps\<close>, the percentage
  that the code computes differs from \<open>100 * part / whole\<close> by at most the relative error
  \<open>2 * eps + eps\<^sup>2\<close> of its two rounded operations.
\<close>

lemma percentage_close:
  assumes err: "\<And>x. \<bar>fl x - x\<bar> \<le> eps * \<bar>x\<bar>" and eps: "0 \<le> eps"
  shows "\<bar>percentage fl part whole - 100 * part / whole\<bar>
           \<le> (2 * eps + eps * eps) * \<bar>100 * part / whole\<bar>"
proof -
  define q where "q = part / whole"
  define q' where "q' = fl q"
  have a: "\<bar>q' - q\<bar> \<le> eps * \<bar>q\<bar>" unfolding q'_def by (rule err)
  then have b: "\<bar>q'\<bar> \<le> (1 + eps) * \<bar>q\<bar>" by (simp add: algebra_simps)
  have c: "\<bar>fl (q' * 100) - q' * 100\<bar> \<le> eps * \<bar>q' * 100\<bar>" by (rule err)
  have "eps * \<bar>q' * 100\<bar> = 100 * (eps * \<bar>q'\<bar>)" by (simp add: abs_mult)
  also have "\<dots> \<le> 100 * (eps * ((1 + eps) * \<bar>q\<bar>))"
    using b eps by (simp add: mult_left_mono)
  finally have d: "\<bar>fl (q' * 100) - q' * 100\<bar> \<le> 100 * (eps * ((1 + eps) * \<bar>q\<bar>))"
    using c by linarith
  have "fl (q' * 100) - 100 * q = (fl (q' * 100) - q' * 100) + 100 * (q' - q)"
    by simp
  then have "\<bar>fl (q' * 100) - 100 * q\<bar> \<le> \<bar>fl (q' * 100) - q' * 100\<bar> + \<bar>100 * (q' - q)\<bar>"
    by (simp only: abs_triangle_ineq)
  also have "\<dots> = \<bar>fl (q' * 100) - q' * 100\<bar> + 100 * \<bar>q' - q\<bar>"
    by (simp only: abs_mult abs_numeral)
  also have "\<dots> \<le> 100 * (eps * ((1 + eps) * \<bar>q\<bar>)) + 100 * (eps * \<bar>q\<bar>)"
    using d a by (intro add_mono mult_left_mono) simp_all
  also have "\<dots> = (2 * eps + eps * eps) * \<bar>100 * q\<bar>"
    by (simp add: abs_mult algebra_simps)
  finally show ?thesis
    unfolding percentage_def q'_def q_def by (simp add: algebra_simps)
qed

lemma first_failure_none:
  "(\<And>t. t \<in> set ts \<Longrightarrow> failure t = None) \<Longrightarrow> first_failure failure ts = None"
  by (induction ts) simp_all

text \<open>
  So the unweighted score of a scene with at least one obtained sample, none of whose
  classifications raises, is \<open>100 * ads / samples\<close> up to that relative error.
\<close>

lemma unweighted_score_close:
  assumes err: "\<And>x. \<bar>fl x - x\<bar> \<le> eps * \<bar>x\<bar>" and eps: "0 \<le> eps"
    and stop: "length (obtained_samples fl (VideoCapture video_path) start end interval n) < n"
    and ok: "\<And>t. t \<in> set (obtained_samples fl (VideoCapture video_path) start end interval n)
               \<Longrightarrow> classification_error fl (VideoCapture video_path) tr m t = None"
    and some: "obtained_samples fl (VideoCapture video_path) start end interval n \<noteq> []"
  shows "\<exists>score. process_video_segments fl VideoCapture tr video_path m start end interval =
                   Some (Inr score)
           \<and> (let cap = VideoCapture video_path;
                   ts = obtained_samples fl cap start end interval n;
                   ratio = 100 * real (length (filter (labelled_ad fl cap tr m) ts))
                             / real (length ts)
               in \<bar>score - ratio\<bar> \<le> (2 * eps + eps * eps) * ratio)"
proof -
  let ?cap = "VideoCapture video_path"
  let ?ts = "obtained_samples fl ?cap start end interval n"
  let ?ads = "real (length (filter (labelled_ad fl ?cap tr m) ?ts))"
  have "first_failure (classification_error fl ?cap tr m) ?ts = None"
    by (rule first_failure_none) (rule ok)
  then have score: "process_video_segments fl VideoCapture tr video_path m start end interval =
      Some (Inr (percentage fl ?ads (real (length ?ts))))"
    using process_video_segments_result
            [of fl VideoCapture video_path start "end" interval n tr m] stop some
    by (simp add: Let_def)
  have "\<bar>percentage fl ?ads (real (length ?ts)) - 100 * ?ads / real (length ?ts)\<bar>
      \<le> (2 * eps + eps * eps) * \<bar>100 * ?ads / real (length ?ts)\<bar>"
    using err eps by (rule percentage_close)
  moreover have "\<bar>100 * ?ads / real (length ?ts)\<bar> = 100 * ?ads / real (length ?ts)"
    by simp
  ultimately show ?thesis
    unfolding score Let_def by simp
qed

section \<open>The two unweighted variants\<close>

text \<open>
  Whatever one loop returns the other returns too, by fixpoint induction in each
  direction; so the loops agree on every input, the runs that never return included.
\<close>

lemma loop_result_in_after_loop:
  assumes "process_video_segments_loop fl cap tr m end_time interval tf af fc cur = Some y"
  shows "process_video_segments_after_loop fl cap tr m end_time interval tf af fc cur = Some y"
proof (rule process_video_segments_loop.raw_induct
    [where P = "\<lambda>fl cap tr m e i tf af fc cur y.
                  process_video_segments_after_loop fl cap tr m e i tf af fc cur = Some y",
     OF _ assms])
  fix loop :: "rounding \<Rightarrow> 'a capture \<Rightarrow> ('a \<Rightarrow> error + 'b) \<Rightarrow> 'b model_handle \<Rightarrow> real \<Rightarrow> real \<Rightarrow>
      int \<Rightarrow> int \<Rightarrow> int \<Rightarrow> real \<Rightarrow> (error + int \<times> int \<times> int \<times> real) option"
    and fl cap tr m e i tf af fc cur y
  assume IH: "\<And>fl cap tr m e i tf af fc cur y.
      loop fl cap tr m e i tf af fc cur = Some y \<Longrightarrow>
      process_video_segments_after_loop fl cap tr m e i tf af fc cur = Some y"
    and body: "(if cur \<le> e
      then case cap (fl (cur * 1000)) of
           None \<Rightarrow> Some (Inr (tf, af, fc, cur))
           | Some frame \<Rightarrow>
               let total_frames = tf + 1
               in (case classify_frame tr frame m of
                     Inl err \<Rightarrow> Some (Inl err)
                   | Inr label \<Rightarrow>
                       (let ad_frames = if label = 0 then af + 1 else af
                        in loop fl cap tr m e i total_frames ad_frames (fc + 1)
                             (fl (cur + i))))
      else Some (Inr (tf, af, fc, cur))) = Some y"
  show "process_video_segments_after_loop fl cap tr m e i tf af fc cur = Some y"
  proof (cases "cur \<le> e")
    case False
    with body show ?thesis
      by (subst process_video_segments_after_loop.simps) simp
  next
    case True
    show ?thesis
    proof (cases "cap (fl (cur * 1000))")
      case None
      with True body show ?thesis
        by (subst process_video_segments_after_loop.simps) simp
    next
      case (Some frame)
      show ?thesis
      proof (cases "classify_frame tr frame m")
        case (Inl err)
        with True Some body show ?thesis
          by (subst process_video_segments_after_loop.simps) (simp add: Let_def)
      next
        case (Inr label)
        with True Some body have "loop fl cap tr m e i (tf + 1)
            (if label = 0 then af + 1 else af) (fc + 1) (fl (cur + i)) = Some y"
          by (simp add: Let_def)
        from IH [OF this] True Some Inr show ?thesis
          by (subst process_video_segments_after_loop.simps) (simp add: Let_def)
      qed
    qed
  qed
qed

lemma after_loop_result_in_loop:
  assumes "process_video_segments_after_loop fl cap tr m end_time interval tf af fc cur = Some y"
  shows "process_video_segments_loop fl cap tr m end_time interval tf af fc cur = Some y"
proof (rule process_video_segments_after_loop.raw_induct
    [where P = "\<lambda>fl cap tr m e i tf af fc cur y.
                  process_video_segments_loop fl cap tr m e i tf af fc cur = Some y",
     OF _ assms])
  fix loop :: "rounding \<Rightarrow> 'a capture \<Rightarrow> ('a \<Rightarrow> error + 'b) \<Rightarrow> 'b model_handle \<Rightarrow> real \<Rightarrow> real \<Rightarrow>
      int \<Rightarrow> int \<Rightarrow> int \<Rightarrow> real \<Rightarrow> (error + int \<times> int \<times> int \<times> real) option"
    and fl cap tr m e i tf af fc cur y
  assume IH: "\<And>fl cap tr m e i tf af fc cur y.
      loop fl cap tr m e i tf af fc cur = Some y \<Longrightarrow>
      process_video_segments_loop fl cap tr m e i tf af fc cur = Some y"
    and body: "(if cur \<le> e
      then case cap (fl (cur * 1000)) of
           None \<Rightarrow> Some (Inr (tf, af, fc, cur))
           | Some frame \<Rightarrow>
               let total_frames = tf + 1
               in (case classify_frame tr frame m of
                     Inl err \<Rightarrow> Some (Inl err)
                   | Inr label \<Rightarrow>
                       (let ad_frames = if label = 0 then af + 1 else af
                        in loop fl cap tr m e i total_frames ad_frames (fc + 1)
                             (fl (cur + i))))
      else Some (Inr (tf, af, fc, cur))) = Some y"
  show "process_video_segments_loop fl cap tr m e i tf af fc cur = Some y"
  proof (cases "cur \<le> e")
    case False
    with body show ?thesis
      by (subst process_video_segments_loop.simps) simp
  next
    case True
    show ?thesis
    proof (cases "cap (fl (cur * 1000))")
      case None
      with True body show ?thesis
        by (subst process_video_segments_loop.simps) simp
    next
      case (Some frame)
      show ?thesis
      proof (cases "classify_frame tr frame m")
        case (Inl err)
        with True Some body show ?thesis
          by (subst process_video_segments_loop.simps) (simp add: Let_def)
      next
        case (Inr label)
        with True Some body have "loop fl cap tr m e i (tf + 1)
            (if label = 0 then af + 1 else af) (fc + 1) (fl (cur + i)) = Some y"
          by (simp add: Let_def)
        from IH [OF this] True Some Inr show ?thesis
          by (subst process_video_segments_loop.simps) (simp add: Let_def)
      qed
    qed
  qed
qed

lemma loops_equal:
  "process_video_segments_loop fl cap tr m end_time interval tf af fc cur =
   process_video_segments_after_loop fl cap tr m end_time interval tf af fc cur"
proof (cases "process_video_segments_loop fl cap tr m end_time interval tf af fc cur")
  case None
  show ?thesis
  proof (cases "process_video_segments_after_loop fl cap tr m end_time interval tf af fc cur")
    case after_none: None
    with None show ?thesis by simp
  next
    case (Some y)
    from after_loop_result_in_loop [OF Some] None show ?thesis by simp
  qed
next
  case (Some y)
  from loop_result_in_after_loop [OF Some] Some show ?thesis by simp
qed

text \<open>
  Claim C9. \<^verbatim>\<open>process_video_segments\<close> and \<^verbatim>\<open>process_video_segments_after_\<close> are the same
  function: for every video, model, scene range and interval (and every rounding) they
  have the same outcome, a score, an exception or a run that never returns.
\<close>

theorem unweighted_variants_equal:
  "process_video_segments fl VideoCapture tr video_path m start end frame_interval =
   process_video_segments_after fl VideoCapture tr video_path m start end frame_interval"
  by (simp add: process_video_segments_def process_video_segments_after_def loops_equal)

section \<open>The weighted score\<close>

text \<open>A range of length zero whose first frame can be read raises, whatever the rounding
  that keeps 0.\<close>

lemma weigth_zero_length_raises:
  assumes "fl 0 = 0" "VideoCapture video_path (fl (start * 1000)) = Some frame"
  shows "process_video_segments_weigth fl VideoCapture tr video_path m start start interval =
           Some (Inl ZeroDivisionError)"
  unfolding process_video_segments_weigth_def Let_def
  by (subst process_video_segments_weigth_loop.simps) (simp add: assms truediv_def)

text \<open>
  Claim C2, which the code breaks. The claim: the weighted score is 0.0 whenever the
  weight sum is zero, in particular for a zero-length range, and no division by zero
  happens. The code: for a range with \<open>end = start\<close> whose first frame can be read, the
  weight \<^verbatim>\<open>(current_time - start_time) / segment_duration\<close> is a division by zero, and
  the call raises \<^verbatim>\<open>ZeroDivisionError\<close> instead of returning 0.0. Only the final
  division by \<^verbatim>\<open>total_weight\<close> is guarded.
\<close>

theorem weighted_zero_length_raises:
  "process_video_segments_weigth exact always_frame plain_transform ''v.mp4''
     (Some (const_model [1, 0])) 1 1 (1 / 2) = Some (Inl ZeroDivisionError)"
  by (rule weigth_zero_length_raises) (simp_all add: exact_def always_frame_def)

text \<open>
  Claim C5, which the code breaks in the weighted mode, by the defect of C2. The claim:
  in both modes the sampling visits \<open>start, start + interval, ...\<close>, classifies one frame
  per timestamp and stops when the timestamp exceeds \<open>end\<close> or no frame is returned. On
  the range \<open>(2, 2)\<close> the sample at 2 is obtained; the unweighted loop classifies it and
  stops at 2.5, the weighted loop raises before it classifies anything.
\<close>

theorem weighted_sampling_aborts_on_zero_length:
  "obtained_samples exact (always_frame ''v.mp4'') 2 2 (1 / 2) 2 = [2]
   \<and> process_video_segments_loop exact (always_frame ''v.mp4'') plain_transform
        (Some (const_model [1, 0])) 2 (1 / 2) 0 0 0 2 = Some (Inr (1, 1, 1, 5 / 2))
   \<and> process_video_segments_weigth_loop exact (always_frame ''v.mp4'') plain_transform
        (Some (const_model [1, 0])) 2 2 (1 / 2) (exact (2 - 2)) 0 0 2
        = Some (Inl ZeroDivisionError)"
proof (intro conjI)
  show "obtained_samples exact (always_frame ''v.mp4'') 2 2 (1 / 2) 2 = [2]"
    by (rule samples_zero_length)
  have stop: "length (obtained_samples exact (always_frame ''v.mp4'') 2 2 (1 / 2) 2) < 2"
    by (simp add: samples_zero_length)
  show "process_video_segments_loop exact (always_frame ''v.mp4'') plain_transform
        (Some (const_model [1, 0])) 2 (1 / 2) 0 0 0 2 = Some (Inr (1, 1, 1, 5 / 2))"
    using process_video_segments_loop_result [OF stop, of plain_transform
            "Some (const_model [1, 0])" 0 0 0]
    by (simp add: samples_zero_length classification_error_def labelled_ad_def
                  label_at_always_frame classify_const_ad label_of_def exact_def)
  show "process_video_segments_weigth_loop exact (always_frame ''v.mp4'') plain_transform
        (Some (const_model [1, 0])) 2 2 (1 / 2) (exact (2 - 2)) 0 0 2
        = Some (Inl ZeroDivisionError)"
    by (subst process_video_segments_weigth_loop.simps)
       (simp add: always_frame_def truediv_def exact_def)
qed




lemma sample_weight_start:
  "fl 0 = 0 \<Longrightarrow> sample_weight fl start d start = 0"
  by (simp add: sample_weight_def)


lemma accumulate_filter_agree:
  assumes "\<And>x. fl (fl x) = fl x" and "w start = 0"
  shows "fl acc = acc \<Longrightarrow> (\<And>t. t \<in> set ts \<Longrightarrow> t \<noteq> start \<Longrightarrow> P t = Q t) \<Longrightarrow>
     accumulate fl acc (map w (filter P ts)) = accumulate fl acc (map w (filter Q ts))"
proof (induction ts arbitrary: acc)
  case Nil
  then show ?case by simp
next
  case (Cons t ts)
  have rest: "\<And>a. fl a = a \<Longrightarrow>
      accumulate fl a (map w (filter P ts)) = accumulate fl a (map w (filter Q ts))"
    using Cons.IH Cons.prems(2) by simp
  show ?case
  proof (cases "t = start")
    case True
    have skip: "accumulate fl acc (w t # ws) = accumulate fl acc ws" for ws
      using True assms(2) Cons.prems(1) by (simp add: accumulate_Cons)
    show ?thesis
      using rest [OF Cons.prems(1)] by (simp add: skip)
  next
    case False
    then have same: "P t = Q t" using Cons.prems(2) by simp
    have "fl (fl (acc + w t)) = fl (acc + w t)" by (rule assms(1))
    from rest [OF this] rest [OF Cons.prems(1)] same show ?thesis
      by (simp add: accumulate_Cons)
  qed
qed







text \<open>
  The weighted loop run with a second model whose labels differ from those of the first
  at the timestamp \<open>start\<close> only, where both classify without raising: whatever the loop
  returns with one model it returns with the other, since the weight at \<open>start\<close> is 0 and
  adding 0 to a float leaves it as it is. By fixpoint induction, so for every interval.
\<close>

lemma weigth_loop_other_model:
  fixes cap :: "'a capture" and tr :: "'a \<Rightarrow> error + 'b" and m1 m2 :: "'b model_handle"
  assumes zero: "fl 0 = 0" and idem: "\<And>x. fl (fl x) = fl x"
    and agree: "\<And>t. t \<noteq> start \<Longrightarrow> label_at fl cap tr m1 t = label_at fl cap tr m2 t"
    and ok1: "classification_error fl cap tr m1 start = None"
    and ok2: "classification_error fl cap tr m2 start = None"
    and rep: "fl twv = twv"
    and run: "process_video_segments_weigth_loop fl cap tr m1 start end_time interval d twv tw
                cur = Some y"
  shows "process_video_segments_weigth_loop fl cap tr m2 start end_time interval d twv tw cur
           = Some y"
proof -
  have "fl = fl \<and> cap = cap \<and> tr = tr \<and> m1 = m1 \<and> start = start \<and> fl twv = twv \<longrightarrow>
      process_video_segments_weigth_loop fl cap tr m2 start end_time interval d twv tw cur
        = Some y"
  proof (rule process_video_segments_weigth_loop.raw_induct
      [where P = "\<lambda>fl' cap' tr' m' s e i d twv tw cur y.
                    fl' = fl \<and> cap' = cap \<and> tr' = tr \<and> m' = m1 \<and> s = start \<and> fl twv = twv \<longrightarrow>
                    process_video_segments_weigth_loop fl cap tr m2 start e i d twv tw cur
                      = Some y",
       OF _ run])
    fix loop :: "rounding \<Rightarrow> 'a capture \<Rightarrow> ('a \<Rightarrow> error + 'b) \<Rightarrow> 'b model_handle \<Rightarrow> real \<Rightarrow>
        real \<Rightarrow> real \<Rightarrow> real \<Rightarrow> real \<Rightarrow> real \<Rightarrow> real \<Rightarrow> (error + real \<times> real \<times> real) option"
      and fl' cap' tr' m' s e i d twv tw cur y
    assume IH: "\<And>fl' cap' tr' m' s e i d twv tw cur y.
        loop fl' cap' tr' m' s e i d twv tw cur = Some y \<Longrightarrow>
        fl' = fl \<and> cap' = cap \<and> tr' = tr \<and> m' = m1 \<and> s = start \<and> fl twv = twv \<longrightarrow>
        process_video_segments_weigth_loop fl cap tr m2 start e i d twv tw cur = Some y"
      and body: "(if cur \<le> e
        then case cap' (fl' (cur * 1000)) of
             None \<Rightarrow> Some (Inr (twv, tw, cur))
             | Some frame \<Rightarrow>
                 (case truediv fl' (fl' (cur - s)) d of
                    Inl err \<Rightarrow> Some (Inl err)
                  | Inr frame_position \<Rightarrow>
                      (let weight = frame_position
                       in (case classify_frame tr' frame m' of
                             Inl err \<Rightarrow> Some (Inl err)
                           | Inr label \<Rightarrow>
                               (let total_weight = fl' (tw + weight);
                                    total_weighted_value =
                                      if label = 0 then fl' (twv + weight) else twv
                                in loop fl' cap' tr' m' s e i d total_weighted_value
                                     total_weight (fl' (cur + i))))))
        else Some (Inr (twv, tw, cur))) = Some y"
    show "fl' = fl \<and> cap' = cap \<and> tr' = tr \<and> m' = m1 \<and> s = start \<and> fl twv = twv \<longrightarrow>
        process_video_segments_weigth_loop fl cap tr m2 start e i d twv tw cur = Some y"
    proof
      assume eqs: "fl' = fl \<and> cap' = cap \<and> tr' = tr \<and> m' = m1 \<and> s = start \<and> fl twv = twv"
      then have rep: "fl twv = twv" by simp
      from eqs have params: "fl' = fl" "cap' = cap" "tr' = tr" "m' = m1" "s = start"
        by simp_all
      note body = body [unfolded params]
      show "process_video_segments_weigth_loop fl cap tr m2 start e i d twv tw cur = Some y"
      proof (cases "cur \<le> e")
        case False
        with body show ?thesis
          by (subst process_video_segments_weigth_loop.simps) simp
      next
        case True
        show ?thesis
        proof (cases "cap (fl (cur * 1000))")
          case None
          with True body eqs show ?thesis
            by (subst process_video_segments_weigth_loop.simps) simp
        next
          case (Some frame)
          show ?thesis
          proof (cases "d = 0")
            case zero_d: True
            with True Some body show ?thesis
              by (subst process_video_segments_weigth_loop.simps) (simp add: truediv_def)
          next
            case nonzero: False
            let ?w = "fl (fl (cur - start) / d)"
            have same: "(case classify_frame tr frame m1 of
                  Inl err \<Rightarrow> Inl err
                | Inr label \<Rightarrow> Inr (if label = 0 then fl (twv + ?w) else twv)) =
                (case classify_frame tr frame m2 of
                  Inl err \<Rightarrow> Inl err
                | Inr label \<Rightarrow> Inr (if label = 0 then fl (twv + ?w) else twv))"
            proof (cases "cur = start")
              case at_start: True
              have w0: "?w = 0" using at_start zero by simp
              from ok1 ok2 Some at_start
              obtain l1 l2 where "classify_frame tr frame m1 = Inr l1"
                  "classify_frame tr frame m2 = Inr l2"
                by (auto simp: classification_error_def label_at_def split: sum.splits)
              then show ?thesis using w0 rep by simp
            next
              case False
              from agree [OF False] Some
              have "(case classify_frame tr frame m1 of
                       Inl e \<Rightarrow> Inl e | Inr predicted \<Rightarrow> Inr (label_of predicted)) =
                    (case classify_frame tr frame m2 of
                       Inl e \<Rightarrow> Inl e | Inr predicted \<Rightarrow> Inr (label_of predicted))"
                by (simp add: label_at_def)
              then show ?thesis
                by (auto simp: label_of_def split: sum.splits if_splits)
            qed
            show ?thesis
            proof (cases "classify_frame tr frame m1")
              case (Inl err)
              with same have "classify_frame tr frame m2 = Inl err"
                by (simp split: sum.splits)
              moreover from True Some body nonzero Inl have "y = Inl err"
                by (simp add: truediv_def Let_def)
              ultimately show ?thesis using True Some nonzero
                by (subst process_video_segments_weigth_loop.simps)
                   (simp add: truediv_def Let_def)
            next
              case (Inr l1)
              with same obtain l2 where l2: "classify_frame tr frame m2 = Inr l2"
                  and twv_eq: "(if l1 = 0 then fl (twv + ?w) else twv) =
                               (if l2 = 0 then fl (twv + ?w) else twv)"
                by (auto split: sum.splits)
              let ?twv = "if l1 = 0 then fl (twv + ?w) else twv"
              from True Some body nonzero Inr
              have "loop fl cap tr m1 start e i d ?twv (fl (tw + ?w)) (fl (cur + i)) = Some y"
                by (simp add: truediv_def Let_def)
              from IH [OF this]
              have rec: "fl ?twv = ?twv \<longrightarrow>
                  process_video_segments_weigth_loop fl cap tr m2 start e i d
                    ?twv (fl (tw + ?w)) (fl (cur + i)) = Some y"
                by simp
              have "fl ?twv = ?twv" using rep idem by simp
              with rec have "process_video_segments_weigth_loop fl cap tr m2 start e i d
                    ?twv (fl (tw + ?w)) (fl (cur + i)) = Some y"
                by blast
              then show ?thesis using True Some nonzero l2 twv_eq
                by (subst process_video_segments_weigth_loop.simps)
                   (simp add: truediv_def Let_def)
            qed
          qed
        qed
      qed
    qed
  qed
  then show ?thesis using rep by simp
qed

lemma weigth_loop_models_equal:
  assumes "fl 0 = 0" and "\<And>x. fl (fl x) = fl x"
    and "\<And>t. t \<noteq> start \<Longrightarrow> label_at fl cap tr m1 t = label_at fl cap tr m2 t"
    and "classification_error fl cap tr m1 start = None"
    and "classification_error fl cap tr m2 start = None"
    and "fl twv = twv"
  shows "process_video_segments_weigth_loop fl cap tr m1 start end_time interval d twv tw cur =
         process_video_segments_weigth_loop fl cap tr m2 start end_time interval d twv tw cur"
proof (cases "process_video_segments_weigth_loop fl cap tr m1 start end_time interval d twv tw
                cur")
  case None
  show ?thesis
  proof (cases "process_video_segments_weigth_loop fl cap tr m2 start end_time interval d twv
                  tw cur")
    case other_none: None
    with None show ?thesis by simp
  next
    case (Some y)
    have "process_video_segments_weigth_loop fl cap tr m1 start end_time interval d twv tw cur
            = Some y"
      by (rule weigth_loop_other_model [OF assms(1,2) _ assms(5,4,6) Some])
         (simp add: assms(3))
    with None show ?thesis by simp
  qed
next
  case (Some y)
  from weigth_loop_other_model [OF assms Some] Some show ?thesis by simp
qed

text \<open>
  Claim C10. The weighted score does not depend on the label of the sample taken at
  \<open>start\<close>, in every float arithmetic that holds 0 exactly and rounds a float to itself.
  Two models that both classify the sample at \<open>start\<close> and whose outcomes agree at every
  other timestamp have the same outcome of the scoring, for every range and interval.
  When the sampling stops and the float duration is not zero, it is enough that no
  classification raises and that the labels agree on the obtained samples other than the
  one at \<open>start\<close>, and the common outcome is a score: that sample has weight
  \<open>(start - start) / (end - start) = 0\<close>.
\<close>

theorem weighted_score_ignores_first_label:
  assumes "fl 0 = 0" and "\<forall>x. fl (fl x) = fl x"
    and "classification_error fl (VideoCapture video_path) tr m1 start = None"
    and "classification_error fl (VideoCapture video_path) tr m2 start = None"
  shows "((\<forall>t. t \<noteq> start \<longrightarrow>
        label_at fl (VideoCapture video_path) tr m1 t =
        label_at fl (VideoCapture video_path) tr m2 t) \<longrightarrow>
      process_video_segments_weigth fl VideoCapture tr video_path m1 start end frame_interval =
      process_video_segments_weigth fl VideoCapture tr video_path m2 start end frame_interval)
   \<and> (length (obtained_samples fl (VideoCapture video_path) start end frame_interval n) < n
        \<and> fl (end - start) \<noteq> 0
        \<and> (\<forall>t\<in>set (obtained_samples fl (VideoCapture video_path) start end frame_interval n).
              classification_error fl (VideoCapture video_path) tr m1 t = None)
        \<and> (\<forall>t\<in>set (obtained_samples fl (VideoCapture video_path) start end frame_interval n).
              t \<noteq> start \<longrightarrow>
              label_at fl (VideoCapture video_path) tr m1 t =
              label_at fl (VideoCapture video_path) tr m2 t) \<longrightarrow>
      process_video_segments_weigth fl VideoCapture tr video_path m1 start end frame_interval =
      process_video_segments_weigth fl VideoCapture tr video_path m2 start end frame_interval
      \<and> (\<exists>score. process_video_segments_weigth fl VideoCapture tr video_path m1 start end
                     frame_interval = Some (Inr score)))"
proof (rule conjI; rule impI)
  let ?cap = "VideoCapture video_path"
  assume "\<forall>t. t \<noteq> start \<longrightarrow> label_at fl ?cap tr m1 t = label_at fl ?cap tr m2 t"
  then have agree: "\<And>t. t \<noteq> start \<Longrightarrow> label_at fl ?cap tr m1 t = label_at fl ?cap tr m2 t"
    by simp
  have idem: "\<And>x. fl (fl x) = fl x" using assms(2) by simp
  have "\<And>d cur.
      process_video_segments_weigth_loop fl ?cap tr m1 start end frame_interval d 0 0 cur =
      process_video_segments_weigth_loop fl ?cap tr m2 start end frame_interval d 0 0 cur"
    by (rule weigth_loop_models_equal [OF assms(1) idem agree assms(3,4) assms(1)])
  then show "process_video_segments_weigth fl VideoCapture tr video_path m1 start end
        frame_interval =
      process_video_segments_weigth fl VideoCapture tr video_path m2 start end frame_interval"
    by (simp add: process_video_segments_weigth_def)
next
  let ?cap = "VideoCapture video_path"
  let ?ts = "obtained_samples fl ?cap start end frame_interval n"
  let ?d = "fl (end - start)"
  assume asm: "length ?ts < n \<and> ?d \<noteq> 0
        \<and> (\<forall>t\<in>set ?ts. classification_error fl ?cap tr m1 t = None)
        \<and> (\<forall>t\<in>set ?ts. t \<noteq> start \<longrightarrow>
              label_at fl ?cap tr m1 t = label_at fl ?cap tr m2 t)"
  then have stop: "length ?ts < n" and d: "?d \<noteq> 0"
    and ok1: "\<And>t. t \<in> set ?ts \<Longrightarrow> classification_error fl ?cap tr m1 t = None"
    and agree: "\<And>t. t \<in> set ?ts \<Longrightarrow> t \<noteq> start \<Longrightarrow>
                  label_at fl ?cap tr m1 t = label_at fl ?cap tr m2 t"
    by simp_all
  have idem: "\<And>x. fl (fl x) = fl x" using assms(2) by simp
  have ok2: "classification_error fl ?cap tr m2 t = None" if "t \<in> set ?ts" for t
  proof (cases "t = start")
    case True
    then show ?thesis using assms(4) by simp
  next
    case False
    from agree [OF that False] ok1 [OF that] show ?thesis
      by (simp add: classification_error_def)
  qed
  have f1: "first_failure (classification_error fl ?cap tr m1) ?ts = None"
    by (rule first_failure_none) (rule ok1)
  have f2: "first_failure (classification_error fl ?cap tr m2) ?ts = None"
    by (rule first_failure_none) (rule ok2)
  have w0: "sample_weight fl start ?d start = 0"
    using assms(1) by (simp add: sample_weight_def)
  have ad: "accumulate fl 0 (map (sample_weight fl start ?d) (filter (labelled_ad fl ?cap tr m1) ?ts))
      = accumulate fl 0 (map (sample_weight fl start ?d) (filter (labelled_ad fl ?cap tr m2) ?ts))"
  proof (rule accumulate_filter_agree
      [where fl = fl and w = "sample_weight fl start ?d" and start = start and acc = 0,
       OF idem w0 assms(1)])
    fix t assume "t \<in> set ?ts" "t \<noteq> start"
    from agree [OF this] show "labelled_ad fl ?cap tr m1 t = labelled_ad fl ?cap tr m2 t"
      by (simp add: labelled_ad_def)
  qed
  show "process_video_segments_weigth fl VideoCapture tr video_path m1 start end
        frame_interval =
      process_video_segments_weigth fl VideoCapture tr video_path m2 start end frame_interval
      \<and> (\<exists>score. process_video_segments_weigth fl VideoCapture tr video_path m1 start end
                     frame_interval = Some (Inr score))"
    using stop d f1 f2 ad
      process_video_segments_weigth_result
        [of fl VideoCapture video_path start "end" frame_interval n tr m1]
      process_video_segments_weigth_result
        [of fl VideoCapture video_path start "end" frame_interval n tr m2]
    by (simp add: Let_def)
qed

text \<open>Two models that differ on the first frame of the one-second scene only.\<close>

theorem weighted_score_ignores_first_label_witness:
  "exact 0 = 0 \<and> (\<forall>x. exact (exact x) = exact x)
   \<and> classification_error exact (always_frame ''v.mp4'') plain_transform
        (Some (ad_only_at 0)) 0 = None
   \<and> classification_error exact (always_frame ''v.mp4'') plain_transform
        (Some (const_model [0, 1])) 0 = None
   \<and> obtained_samples exact (always_frame ''v.mp4'') 0 1 (1 / 2) 4 = [0, 1 / 2, 1]
   \<and> exact (1 - 0) \<noteq> 0
   \<and> label_at exact (always_frame ''v.mp4'') plain_transform (Some (ad_only_at 0)) (1 / 2) =
       label_at exact (always_frame ''v.mp4'') plain_transform (Some (const_model [0, 1])) (1 / 2)
   \<and> label_at exact (always_frame ''v.mp4'') plain_transform (Some (ad_only_at 0)) 1 =
       label_at exact (always_frame ''v.mp4'') plain_transform (Some (const_model [0, 1])) 1
   \<and> labelled_ad exact (always_frame ''v.mp4'') plain_transform (Some (ad_only_at 0)) 0
   \<and> labelled_content exact (always_frame ''v.mp4'') plain_transform
        (Some (const_model [0, 1])) 0
   \<and> process_video_segments_weigth exact always_frame plain_transform ''v.mp4''
        (Some (ad_only_at 0)) 0 1 (1 / 2) =
       process_video_segments_weigth exact always_frame plain_transform ''v.mp4''
        (Some (const_model [0, 1])) 0 1 (1 / 2)
   \<and> process_video_segments_weigth exact always_frame plain_transform ''v.mp4''
        (Some (ad_only_at 0)) 0 1 (1 / 2) = Some (Inr 0)"
proof -
  have score: "process_video_segments_weigth exact always_frame plain_transform ''v.mp4''
      (Some (const_model [0, 1])) 0 1 (1 / 2) = Some (Inr 0)"
    using process_video_segments_weigth_result
            [of exact always_frame "''v.mp4''" 0 1 "1 / 2" 4 plain_transform
                "Some (const_model [0, 1])"]
    by (simp add: samples_unit Let_def labelled_ad_def classification_error_def
                  label_at_const_content accumulate_def percentage_def exact_def)
  show ?thesis
    using weighted_score_ignores_first_label
            [of exact always_frame "''v.mp4''" plain_transform "Some (ad_only_at 0)" 0
                "Some (const_model [0, 1])" 1 "1 / 2" 4]
    by (simp add: samples_unit labelled_ad_def labelled_content_def classification_error_def
                  label_at_const_content label_at_ad_only_at_zero score)
       (simp add: exact_def)
qed

section \<open>Frame labels and what the scoring functions count\<close>

text \<open>\<^verbatim>\<open>torch.max\<close> returns the position of the first maximal entry.\<close>

lemma torch_max_index_is_max:
  "outputs \<noteq> [] \<Longrightarrow>
     torch_max_index outputs < length outputs
     \<and> (\<forall>x\<in>set outputs. x \<le> outputs ! torch_max_index outputs)
     \<and> (\<forall>j<torch_max_index outputs. outputs ! j < outputs ! torch_max_index outputs)"
proof (induction outputs rule: torch_max_index.induct)
  case 1
  then show ?case by simp
next
  case (2 x)
  then show ?case by simp
next
  case (3 x y ys)
  let ?j = "torch_max_index (y # ys)"
  from 3 have IH: "?j < length (y # ys)"
      "\<forall>z\<in>set (y # ys). z \<le> (y # ys) ! ?j"
      "\<forall>k<?j. (y # ys) ! k < (y # ys) ! ?j"
    by simp_all
  show ?case
  proof (cases "(y # ys) ! ?j \<le> x")
    case True
    then have idx: "torch_max_index (x # y # ys) = 0" by simp
    have "\<forall>z\<in>set (x # y # ys). z \<le> x" using IH(2) True by auto
    then show ?thesis unfolding idx by simp
  next
    case False
    then have idx: "torch_max_index (x # y # ys) = Suc ?j" by simp
    have a: "Suc ?j < length (x # y # ys)" using IH(1) by simp
    have b: "\<forall>z\<in>set (x # y # ys). z \<le> (x # y # ys) ! Suc ?j"
      using IH(2) False by auto
    have c: "\<forall>k<Suc ?j. (x # y # ys) ! k < (x # y # ys) ! Suc ?j"
    proof (intro allI impI)
      fix k assume "k < Suc ?j"
      then show "(x # y # ys) ! k < (x # y # ys) ! Suc ?j"
        using IH(3) False by (cases k) auto
    qed
    show ?thesis unfolding idx using a b c by blast
  qed
qed

text \<open>
  Claim C7. When preprocessing and inference succeed and the output row is not empty
  (the classifier has two classes), \<^verbatim>\<open>classify_frame\<close> returns the index of the maximal
  entry of the output on the preprocessed frame, the first such index. And the three
  scoring functions count a sample as an Ad frame exactly when that index is 0: whenever
  the sampling stops, each score is computed from the obtained samples whose frame
  \<^verbatim>\<open>classify_frame\<close> maps to 0, by their number in the unweighted functions and by their
  accumulated weight in the weighted one.
\<close>

theorem classify_frame_argmax_and_counting:
  "(tr frame = Inr tensor \<and> network tensor = Inr outputs \<and> outputs \<noteq> [] \<longrightarrow>
      classify_frame tr frame (Some network) = Inr (torch_max_index outputs)
      \<and> torch_max_index outputs < length outputs
      \<and> outputs ! torch_max_index outputs = Max (set outputs)
      \<and> (\<forall>j<torch_max_index outputs. outputs ! j < outputs ! torch_max_index outputs))
   \<and> (length (obtained_samples fl (VideoCapture video_path) start end frame_interval n) < n
        \<longrightarrow>
        (let cap = VideoCapture video_path;
             ts = obtained_samples fl cap start end frame_interval n;
             ads = filter (\<lambda>t. case cap (fl (t * 1000)) of
                                 None \<Rightarrow> False
                               | Some sample \<Rightarrow> classify_frame tr sample m = Inr 0) ts;
             failure = first_failure (classification_error fl cap tr m) ts;
             d = fl (end - start);
             ad_weight = accumulate fl 0 (map (sample_weight fl start d) ads);
             weight = accumulate fl 0 (map (sample_weight fl start d) ts)
         in process_video_segments fl VideoCapture tr video_path m start end frame_interval =
              Some (case failure of
                      Some e \<Rightarrow> Inl e
                    | None \<Rightarrow>
                        Inr (if ts = [] then 0
                             else fl (fl (real (length ads) / real (length ts)) * 100)))
          \<and> process_video_segments_after fl VideoCapture tr video_path m start end
                frame_interval =
              Some (case failure of
                      Some e \<Rightarrow> Inl e
                    | None \<Rightarrow>
                        Inr (if ts = [] then 0
                             else fl (fl (real (length ads) / real (length ts)) * 100)))
          \<and> process_video_segments_weigth fl VideoCapture tr video_path m start end
                frame_interval =
              Some (if d = 0 \<and> ts \<noteq> [] then Inl ZeroDivisionError
                    else (case failure of
                            Some e \<Rightarrow> Inl e
                          | None \<Rightarrow>
                              Inr (if weight > 0 then fl (fl (ad_weight / weight) * 100)
                                   else 0)))))"
proof (rule conjI; rule impI)
  assume a: "tr frame = Inr tensor \<and> network tensor = Inr outputs \<and> outputs \<noteq> []"
  then have ne: "outputs \<noteq> []" by simp
  note mx = torch_max_index_is_max [OF ne]
  have "outputs ! torch_max_index outputs = Max (set outputs)"
  proof (rule sym, rule Max_eqI)
    show "finite (set outputs)" by simp
    show "\<And>y. y \<in> set outputs \<Longrightarrow> y \<le> outputs ! torch_max_index outputs"
      using mx by simp
    show "outputs ! torch_max_index outputs \<in> set outputs"
      using mx by simp
  qed
  moreover have "classify_frame tr frame (Some network) = Inr (torch_max_index outputs)"
    using a by (simp add: classify_frame_def)
  ultimately show "classify_frame tr frame (Some network) = Inr (torch_max_index outputs)
      \<and> torch_max_index outputs < length outputs
      \<and> outputs ! torch_max_index outputs = Max (set outputs)
      \<and> (\<forall>j<torch_max_index outputs. outputs ! j < outputs ! torch_max_index outputs)"
    using mx by simp
next
  let ?cap = "VideoCapture video_path"
  assume stop: "length (obtained_samples fl ?cap start end frame_interval n) < n"
  have ads: "(\<lambda>t. case ?cap (fl (t * 1000)) of
                     None \<Rightarrow> False
                   | Some sample \<Rightarrow> classify_frame tr sample m = Inr 0) =
             labelled_ad fl ?cap tr m"
    by (rule ext) (simp add: labelled_ad_case)
  show "let cap = VideoCapture video_path;
             ts = obtained_samples fl cap start end frame_interval n;
             ads = filter (\<lambda>t. case cap (fl (t * 1000)) of
                                 None \<Rightarrow> False
                               | Some sample \<Rightarrow> classify_frame tr sample m = Inr 0) ts;
             failure = first_failure (classification_error fl cap tr m) ts;
             d = fl (end - start);
             ad_weight = accumulate fl 0 (map (sample_weight fl start d) ads);
             weight = accumulate fl 0 (map (sample_weight fl start d) ts)
         in process_video_segments fl VideoCapture tr video_path m start end frame_interval =
              Some (case failure of
                      Some e \<Rightarrow> Inl e
                    | None \<Rightarrow>
                        Inr (if ts = [] then 0
                             else fl (fl (real (length ads) / real (length ts)) * 100)))
          \<and> process_video_segments_after fl VideoCapture tr video_path m start end
                frame_interval =
              Some (case failure of
                      Some e \<Rightarrow> Inl e
                    | None \<Rightarrow>
                        Inr (if ts = [] then 0
                             else fl (fl (real (length ads) / real (length ts)) * 100)))
          \<and> process_video_segments_weigth fl VideoCapture tr video_path m start end
                frame_interval =
              Some (if d = 0 \<and> ts \<noteq> [] then Inl ZeroDivisionError
                    else (case failure of
                            Some e \<Rightarrow> Inl e
                          | None \<Rightarrow>
                              Inr (if weight > 0 then fl (fl (ad_weight / weight) * 100)
                                   else 0)))"
    using stop
      process_video_segments_result
        [of fl VideoCapture video_path start "end" frame_interval n tr m]
      process_video_segments_after_result
        [of fl VideoCapture video_path start "end" frame_interval n tr m]
      process_video_segments_weigth_result
        [of fl VideoCapture video_path start "end" frame_interval n tr m]
    unfolding percentage_def Let_def ads by simp
qed

text \<open>The one-second scene with a model that labels every frame as an ad, one that labels
  none, and one that labels the first frame alone.\<close>

theorem classify_frame_argmax_and_counting_witness:
  "plain_transform 0 = Inr 0 \<and> ad_only_at 0 0 = Inr [1, 0] \<and> [1, 0 :: real] \<noteq> []
   \<and> classify_frame plain_transform 0 (Some (ad_only_at 0)) = Inr 0
   \<and> [1, 0 :: real] ! 0 = Max (set [1, 0])
   \<and> length (obtained_samples exact (always_frame ''v.mp4'') 0 1 (1 / 2) 4) < 4
   \<and> obtained_samples exact (always_frame ''v.mp4'') 0 1 (1 / 2) 4 = [0, 1 / 2, 1]
   \<and> process_video_segments exact always_frame plain_transform ''v.mp4''
        (Some (const_model [1, 0])) 0 1 (1 / 2) = Some (Inr 100)
   \<and> process_video_segments_after exact always_frame plain_transform ''v.mp4''
        (Some (const_model [0, 1])) 0 1 (1 / 2) = Some (Inr 0)
   \<and> process_video_segments_weigth exact always_frame plain_transform ''v.mp4''
        (Some (ad_only_at 0)) 0 1 (1 / 2) = Some (Inr 0)"
  using classify_frame_argmax_and_counting
          [of plain_transform 0 0 "ad_only_at 0" "[1, 0]" exact always_frame "''v.mp4''"
              0 1 "1 / 2" 4 "Some (const_model [1, 0])"]
        classify_frame_argmax_and_counting
          [of plain_transform 0 0 "ad_only_at 0" "[1, 0]" exact always_frame "''v.mp4''"
              0 1 "1 / 2" 4 "Some (const_model [0, 1])"]
        classify_frame_argmax_and_counting
          [of plain_transform 0 0 "ad_only_at 0" "[1, 0]" exact always_frame "''v.mp4''"
              0 1 "1 / 2" 4 "Some (ad_only_at 0)"]
  by (simp add: samples_unit Let_def plain_transform_def ad_only_at_def always_frame_def
                classify_frame_def const_model_def classification_error_def label_at_def
                accumulate_def sample_weight_def exact_def)

section \<open>The decision stage\<close>

text \<open>The test that the loop body computes is the rule of the specification.\<close>

lemma is_ad_matches_rule:
  assumes "i < length scores"
  shows "is_advertisement (scores ! i) (25 / 2) 10
           (\<not> (if i > 0 then scores ! (i - 1) \<ge> 25 / 2 else False)
            \<and> \<not> (if int i < int (length scores) - 1 then scores ! (i + 1) \<ge> 25 / 2 else False))
         = classified_ad scores i"
proof -
  have "(int i < int (length scores) - 1) = (i + 1 < length scores)" by auto
  then show ?thesis
    by (simp add: is_advertisement_def classified_ad_def effective_threshold_def isolated_def)
qed

text \<open>
  The loop entered at index \<open>i\<close>: it appends, in order, the scenes that the rule
  classifies as ads among the indices visited before the flag is read cleared.
\<close>

lemma decision_loop_result:
  assumes "length scenes = length scores"
  shows "i \<le> length scores \<Longrightarrow>
    decision_loop is_running (25 / 2) 10 scores scenes (enumerate i (drop i scores)) acc =
      Inr (acc @ map ((!) scenes)
                   (filter (classified_ad scores) (takeWhile is_running [i..<length scores])))"
proof (induction "length scores - i" arbitrary: i acc)
  case 0
  then show ?case by simp
next
  case (Suc d)
  then have lt: "i < length scores" by simp
  have d: "d = length scores - Suc i" using Suc.hyps(2) by simp
  have en: "enumerate i (drop i scores) =
      (i, scores ! i) # enumerate (Suc i) (drop (Suc i) scores)"
    using lt by (simp add: Cons_nth_drop_Suc [symmetric])
  have up: "[i..<length scores] = i # [Suc i..<length scores]"
    using lt by (simp add: upt_conv_Cons)
  note IH = Suc.hyps(1) [OF d, of _]
  show ?case
  proof (cases "is_running i")
    case False
    then show ?thesis unfolding en up by simp
  next
    case True
    have le: "Suc i \<le> length scores" using lt by simp
    show ?thesis
      unfolding en up
      using True lt assms is_ad_matches_rule [OF lt] IH [OF le]
      by (simp add: Let_def)
  qed
qed

text \<open>
  Claim C1 as stated fails: the loop polls \<^verbatim>\<open>self.worker._is_running\<close> at each iteration
  and breaks when the worker was stopped. Stopped before the first iteration, the stage
  returns the empty list for a single scene of score 50, which the rule classifies as
  an ad.
\<close>

theorem decide_stopped_counterexample:
  "classified_ad [50] 0 \<and> decide (running_until 0) [50] [(0, 10)] = Inr []"
  by (simp add: classified_ad_def effective_threshold_def isolated_def decide_def
                running_until_def)

text \<open>
  Claim C1, amended. For scores aligned 1:1 with the scene list, base threshold 12.5
  and boost 10, the decision stage walks the scenes once, in order, for as long as the
  worker's running flag is read set: it returns, in the original order, exactly the
  visited scenes \<open>i\<close> with \<open>s[i] \<ge> effectiveThreshold\<close>, where the threshold is 12.5 for
  an isolated scene and 2.5 otherwise. When the worker is never stopped every scene is
  visited, and the list is the one the claim describes.
\<close>

theorem decide_result:
  assumes "length scenes = length scores"
  shows "decide run_decide scores scenes =
           Inr (map ((!) scenes)
                  (filter (classified_ad scores) (takeWhile run_decide [0..<length scores])))
       \<and> ((\<forall>i<length scores. run_decide i) \<longrightarrow>
            decide run_decide scores scenes =
              Inr (map ((!) scenes) (filter (classified_ad scores) [0..<length scores])))"
proof -
  have stage: "decide run_decide scores scenes =
      Inr (map ((!) scenes)
             (filter (classified_ad scores) (takeWhile run_decide [0..<length scores])))"
    using decision_loop_result [OF assms, of 0 run_decide "[]"]
    by (simp add: decide_def)
  have all: "(\<forall>i<length scores. run_decide i) \<longrightarrow>
      takeWhile run_decide [0..<length scores] = [0..<length scores]"
    by simp
  show ?thesis
  proof (intro conjI impI)
    show "decide run_decide scores scenes =
      Inr (map ((!) scenes)
             (filter (classified_ad scores) (takeWhile run_decide [0..<length scores])))"
      by (rule stage)
    assume "\<forall>i<length scores. run_decide i"
    with all have "takeWhile run_decide [0..<length scores] = [0..<length scores]"
      by blast
    with stage show "decide run_decide scores scenes =
        Inr (map ((!) scenes) (filter (classified_ad scores) [0..<length scores]))"
      by simp
  qed
qed

text \<open>
  The two score lists of the specification's examples with a worker that is not
  stopped, and the second one with a worker stopped after the first scene.
\<close>

theorem decide_result_witness:
  "length [(0, 10), (10, 20), (20, 30 :: real)] = length [50, 0, 0 :: real]
   \<and> running_until 3 0 \<and> running_until 3 1 \<and> running_until 3 2
   \<and> decide (running_until 3) [50, 0, 0] [(0, 10), (10, 20), (20, 30)] = Inr [(0, 10)]
   \<and> decide (running_until 3) [3, 20, 3] [(0, 10), (10, 20), (20, 30)]
       = Inr [(0, 10), (10, 20), (20, 30)]
   \<and> decide (running_until 1) [3, 20, 3] [(0, 10), (10, 20), (20, 30)] = Inr [(0, 10)]"
  using decide_result [of "[(0, 10), (10, 20), (20, 30)]" "[50, 0, 0]" "running_until 3"]
        decide_result [of "[(0, 10), (10, 20), (20, 30)]" "[3, 20, 3]" "running_until 3"]
        decide_result [of "[(0, 10), (10, 20), (20, 30)]" "[3, 20, 3]" "running_until 1"]
  by (simp add: upt_rec running_until_def classified_ad_def effective_threshold_def
                isolated_def)

section \<open>The score dictionary\<close>

lemma submit_loop_all:
  "(\<forall>k<length scenes. is_running (i + k)) \<Longrightarrow>
     submit_loop is_running task i scenes futures = futures @ map task scenes"
proof (induction scenes arbitrary: i futures)
  case Nil
  then show ?case by simp
next
  case (Cons scene scenes)
  have "is_running i" using Cons.prems by force
  moreover have "\<forall>k<length scenes. is_running (Suc i + k)"
    using Cons.prems by force
  ultimately show ?case using Cons.IH [of "Suc i"] by simp
qed

lemma update_fresh_key:
  "k \<notin> fst ` set ps \<Longrightarrow> AList.update k v ps = ps @ [(k, v)]"
  by (induction ps) auto

lemma collect_loop_all:
  "(\<forall>k<length scenes. is_running (i + k)) \<Longrightarrow> distinct scenes \<Longrightarrow>
   set scenes \<inter> fst ` set preds = {} \<Longrightarrow>
     collect_loop is_running i (map (\<lambda>scene. Some (Inr [(scene, f scene)])) scenes) preds =
       Some (Inr (preds @ map (\<lambda>scene. (scene, f scene)) scenes))"
proof (induction scenes arbitrary: i preds)
  case Nil
  then show ?case by simp
next
  case (Cons scene scenes)
  have run: "is_running i" using Cons.prems(1) by force
  have rest: "\<forall>k<length scenes. is_running (Suc i + k)"
    using Cons.prems(1) by force
  have fresh: "scene \<notin> fst ` set preds" using Cons.prems(3) by auto
  have upd: "dict_update preds [(scene, f scene)] = preds @ [(scene, f scene)]"
    by (simp add: dict_update_def update_fresh_key [OF fresh])
  have disj: "set scenes \<inter> fst ` set (preds @ [(scene, f scene)]) = {}"
    using Cons.prems(2,3) by auto
  have dist: "distinct scenes" using Cons.prems(2) by simp
  show ?case
    using run upd Cons.IH [OF rest dist disj] by simp
qed

lemma lookup_scores_all:
  "set scenes \<subseteq> set keys \<Longrightarrow>
     lookup_scores (map (\<lambda>scene. (scene, f scene)) keys) scenes = Inr (map f scenes)"
proof (induction scenes)
  case Nil
  then show ?case by simp
next
  case (Cons scene scenes)
  have "map_of (map (\<lambda>scene. (scene, f scene)) keys) scene = Some (f scene)"
    using Cons.prems by (simp add: map_of_map_restrict)
  then show ?case using Cons by (cases scene) simp
qed

text \<open>The task of one scene stores the score of its scene, or raises what the scoring
  raises.\<close>

lemma single_scene_task:
  assumes "process_video_segments_after fl VideoCapture tr video_path m (fst scene) (snd scene)
             default_frame_interval = Some outcome"
  shows "detect_ad_scenes_from_segments_and_get_all_results fl VideoCapture tr video_path
           [scene] m =
         Some (case outcome of Inl e \<Rightarrow> Inl e | Inr result \<Rightarrow> Inr [(scene, result)])"
  using assms
  by (cases scene; cases outcome)
     (simp_all add: detect_ad_scenes_from_segments_and_get_all_results_def)

text \<open>The \<^verbatim>\<open>with\<close> block when the worker is stopped neither while the tasks are
  submitted nor while their results are collected, and every task returns a score.\<close>

lemma executor_block_not_stopped:
  assumes "distinct scenes"
    and "\<forall>i<length scenes. run_submit i"
    and "\<forall>i<length scenes. run_collect i"
    and "\<forall>scene\<in>set scenes.
           process_video_segments_after fl VideoCapture tr video_path m (fst scene) (snd scene)
             default_frame_interval = Some (Inr (score scene))"
  shows "executor_block run_submit run_collect fl VideoCapture tr video_path m scenes =
           Some (Inr (map (\<lambda>scene. (scene, score scene)) scenes))"
proof -
  let ?task = "\<lambda>scene. detect_ad_scenes_from_segments_and_get_all_results
                         fl VideoCapture tr video_path [scene] m"
  have task: "map ?task scenes = map (\<lambda>scene. Some (Inr [(scene, score scene)])) scenes"
  proof (rule map_cong [OF refl])
    fix scene assume "scene \<in> set scenes"
    with assms(4) have "process_video_segments_after fl VideoCapture tr video_path m
        (fst scene) (snd scene) default_frame_interval = Some (Inr (score scene))"
      by blast
    from single_scene_task [OF this]
    show "?task scene = Some (Inr [(scene, score scene)])" by simp
  qed
  have futures: "submit_loop run_submit ?task 0 scenes [] =
      map (\<lambda>scene. Some (Inr [(scene, score scene)])) scenes"
    using submit_loop_all [of scenes run_submit 0 ?task "[]"] assms(2)
    by (simp add: task)
  have collected: "collect_loop run_collect 0
        (map (\<lambda>scene. Some (Inr [(scene, score scene)])) scenes) [] =
      Some (Inr (map (\<lambda>scene. (scene, score scene)) scenes))"
    using collect_loop_all [of scenes run_collect 0 "[]" score] assms(1,3) by simp
  have finished: "\<not> list_ex (\<lambda>future. future = None)
      (map (\<lambda>scene. Some (Inr [(scene, score scene)])) scenes)"
    by (auto simp: list_ex_iff)
  show ?thesis
    unfolding executor_block_def Let_def futures collected using finished by simp
qed

lemma after_no_frame:
  "process_video_segments_after exact no_frame tr video_path m start end interval =
     Some (Inr 0)"
proof -
  have none: "obtained_samples exact (no_frame video_path) start end interval (Suc 0) = []"
    by (simp add: obtained_samples_def sampled_def no_frame_def)
  show ?thesis
    using process_video_segments_after_result
            [of exact no_frame video_path start "end" interval "Suc 0" tr m]
    by (simp add: none Let_def)
qed

text \<open>
  Claim C6 as stated fails: the submission and the collection loop poll the running
  flag and break when the worker was stopped. With two scenes and a worker stopped after
  the first result was collected, the dictionary holds one entry, and the lookup of the
  second scene raises \<^verbatim>\<open>KeyError\<close>.
\<close>

theorem executor_block_stopped_counterexample:
  "distinct [(0, 1), (1, 2 :: real)]
   \<and> executor_block (running_until 2) (running_until 1) exact no_frame plain_transform
        ''v.mp4'' (Some (const_model [1, 0])) [(0, 1), (1, 2)] = Some (Inr [((0, 1), 0)])
   \<and> lookup_scores [((0, 1), 0)] [(0, 1), (1, 2)] = Inl KeyError"
  by (simp add: executor_block_def detect_ad_scenes_from_segments_and_get_all_results_def
                after_no_frame running_until_def dict_update_def)

text \<open>
  Claim C6, amended. For pairwise distinct scene ranges, a worker that is stopped
  neither during submission nor during collection, and scoring tasks that all return a
  score, the accumulated dictionary holds exactly one entry per scene, keyed by the
  \<open>(start, end)\<close> pair itself and in the order of the scene list, with the score that
  \<^verbatim>\<open>process_video_segments_after_\<close> returned for that scene at the default interval; and
  the caller's lookup returns exactly one score per scene, in the order of the scene
  list.
\<close>

theorem executor_block_result:
  assumes "distinct scenes"
    and "\<forall>i<length scenes. run_submit i"
    and "\<forall>i<length scenes. run_collect i"
    and "\<forall>scene\<in>set scenes.
           process_video_segments_after fl VideoCapture tr video_path m (fst scene) (snd scene)
             default_frame_interval = Some (Inr (score scene))"
  shows "executor_block run_submit run_collect fl VideoCapture tr video_path m scenes =
           Some (Inr (map (\<lambda>scene. (scene, score scene)) scenes))
       \<and> lookup_scores (map (\<lambda>scene. (scene, score scene)) scenes) scenes
         = Inr (map score scenes)"
proof (intro conjI)
  show "executor_block run_submit run_collect fl VideoCapture tr video_path m scenes =
      Some (Inr (map (\<lambda>scene. (scene, score scene)) scenes))"
    by (rule executor_block_not_stopped [OF assms])
  show "lookup_scores (map (\<lambda>scene. (scene, score scene)) scenes) scenes
      = Inr (map score scenes)"
    by (rule lookup_scores_all) simp
qed

text \<open>Two scenes of a second and a half each; the first frame of the first scene is the
  only ad.\<close>

theorem executor_block_result_witness:
  "distinct [(0, 3 / 2), (2, 7 / 2 :: real)]
   \<and> running_until 2 0 \<and> running_until 2 1
   \<and> process_video_segments_after exact always_frame plain_transform ''v.mp4''
        (Some (ad_only_at 0)) 0 (3 / 2) default_frame_interval = Some (Inr 25)
   \<and> process_video_segments_after exact always_frame plain_transform ''v.mp4''
        (Some (ad_only_at 0)) 2 (7 / 2) default_frame_interval = Some (Inr 0)
   \<and> executor_block (running_until 2) (running_until 2) exact always_frame plain_transform
        ''v.mp4'' (Some (ad_only_at 0)) [(0, 3 / 2), (2, 7 / 2)]
       = Some (Inr [((0, 3 / 2), 25), ((2, 7 / 2), 0)])
   \<and> lookup_scores [((0, 3 / 2), 25), ((2, 7 / 2), 0)] [(0, 3 / 2), (2, 7 / 2)]
       = Inr [25, 0]"
  using executor_block_result
          [of "[(0, 3 / 2), (2, 7 / 2)]" "running_until 2" "running_until 2" exact
              always_frame plain_transform "''v.mp4''" "Some (ad_only_at 0)"
              "\<lambda>scene. if scene = (0, 3 / 2) then 25 else 0"]
  by (simp add: running_until_def default_frame_interval_def after_first_scene
                after_second_scene)

text \<open>
  A task that raises makes \<^verbatim>\<open>future.result()\<close> re-raise, and no dictionary is returned:
  with the handle \<^verbatim>\<open>None\<close> of a failed load the first classification raises
  \<^verbatim>\<open>TypeError\<close>, and so does the whole analysis.
\<close>

lemma executor_block_none_handle:
  "executor_block (running_until 1) (running_until 1) exact always_frame plain_transform
     ''v.mp4'' None [(0, 1)] = Some (Inl TypeError)"
proof -
  have "process_video_segments_after exact always_frame plain_transform ''v.mp4'' None
      0 1 (1 / 2) = Some (Inl TypeError)"
    using process_video_segments_after_result
            [of exact always_frame "''v.mp4''" 0 1 "1 / 2" 4 plain_transform None]
    by (simp add: samples_unit Let_def classification_error_def label_at_always_frame
                  classify_frame_def plain_transform_def)
  then show ?thesis
    by (simp add: executor_block_def detect_ad_scenes_from_segments_and_get_all_results_def
                  default_frame_interval_def running_until_def)
qed

lemma analyze_video_none_handle:
  "analyze_video (running_until 1) (running_until 1) (running_until 1) exact always_frame
     plain_transform ''v.mp4'' None [(0, 1)] = Some (Inl TypeError)"
  unfolding analyze_video_def executor_block_none_handle by simp

text \<open>
  The whole of \<^verbatim>\<open>_analyze_video\<close> for a worker that is not stopped before the decision
  loop and tasks that all return a score: the decision stage runs on the scores of the
  scenes, in the order of the scenes.
\<close>

lemma analyze_video_not_stopped:
  assumes "distinct scenes"
    and "\<forall>i<length scenes. run_submit i"
    and "\<forall>i<length scenes. run_collect i"
    and "\<forall>scene\<in>set scenes.
           process_video_segments_after fl VideoCapture tr video_path m (fst scene) (snd scene)
             default_frame_interval = Some (Inr (score scene))"
  shows "analyze_video run_submit run_collect run_decide fl VideoCapture tr video_path m scenes
           = Some (decide run_decide (map score scenes) scenes)"
proof (cases "scenes = []")
  case True
  then show ?thesis by (simp add: analyze_video_def decide_def)
next
  case False
  then show ?thesis
    unfolding analyze_video_def executor_block_not_stopped [OF assms]
    by (simp add: lookup_scores_all)
qed

section \<open>The model registry\<close>

lemma zip_path_of_swin:
  "str_replace ''../models/ad_classifier_swin.pth'' ''.pth'' ''.zip'' =
     ''../models/ad_classifier_swin.zip''"
  by (simp add: str_replace_def)

text \<open>A name that is neither preloaded nor registered raises.\<close>

lemma load_model_unregistered:
  "map_of PRELOADED_MODELS model_name = None \<Longrightarrow>
   map_of AVAILABLE_MODELS model_name = None \<Longrightarrow>
   load_model env PRELOADED_MODELS model_name = (Inl AttributeError, PRELOADED_MODELS)"
  by (simp add: load_model_def)

text \<open>
  Claim C8, which the code breaks. The claim: for a name absent from the registry
  \<^verbatim>\<open>load_model\<close> returns the failure value. The code: \<^verbatim>\<open>AVAILABLE_MODELS.get\<close> returns
  \<^verbatim>\<open>None\<close> for such a name and the next statement calls \<^verbatim>\<open>.replace\<close> on it, which raises
  \<^verbatim>\<open>AttributeError\<close>; the branch that prints "not found in AVAILABLE_MODELS" and
  returns \<^verbatim>\<open>None\<close> is never reached for it.
\<close>

theorem load_model_unknown_name_raises:
  "load_model env [] ''VGG'' = (Inl AttributeError, [])"
  by (simp add: load_model_def AVAILABLE_MODELS_def)

end
